theory Spec2Isabelle
  imports Complex_Main
begin

section \<open>The asset manager of \<^verbatim>\<open>ba/_assetmanager.py\<close>\<close>

text \<open>
  A shallow embedding of \<^verbatim>\<open>src/assets/src/ba_data/python/ba/_assetmanager.py\<close>:
  the classes \<^verbatim>\<open>State\<close>, \<^verbatim>\<open>AssetManager\<close>, \<^verbatim>\<open>AssetGather\<close> and the function
  \<^verbatim>\<open>fetch_url\<close>. Everything the Python does beyond returning a value is explicit:
  the file system and the console are a \<open>world\<close> that every operation takes and returns,
  an exception is the \<open>Inl\<close> of a sum, and the \<^verbatim>\<open>while True\<close> loop of \<^verbatim>\<open>fetch_url\<close>,
  which runs for as long as the remote stream keeps delivering, is a partial function
  whose value \<open>None\<close> means that the call never returns.
\<close>

subsection \<open>Exceptions\<close>

text \<open>
  The exceptions the module raises itself or lets escape. The specification's names map
  to them as follows: \<^verbatim>\<open>ConfigurationError\<close> is the \<open>RuntimeError\<close> of the constructor,
  \<^verbatim>\<open>TransferTimeoutExhausted\<close> is the re-raised \<open>SocketTimeout\<close> (\<^verbatim>\<open>socket.timeout\<close>),
  \<^verbatim>\<open>TransferBadResponse\<close> is the \<open>TypeError\<close> or \<open>ValueError\<close> of
  \<^verbatim>\<open>int(ureq.headers["Content-Length"])\<close>. \<open>OtherError\<close> stands for whatever else the
  collaborators (the network, the record codec) raise.
\<close>

datatype error =
    RuntimeError
  | OSError
  | TypeError
  | ValueError
  | SocketTimeout
  | ZeroDivisionError
  | OverflowError
  | AttributeError
  | OtherError string

subsection \<open>The world: file system and console\<close>

text \<open>
  A \<^verbatim>\<open>pathlib.Path\<close> is its list of components, so \<^verbatim>\<open>Path(root, 'state')\<close> is
  \<open>root @ [''state'']\<close>. The file system maps a path to a directory or to a file with
  its contents; bytes and text are both character lists.
\<close>

type_synonym path = "string list"
type_synonym bytes = "char list"

datatype node = Dir | File bytes

type_synonym filesystem = "path \<rightharpoonup> node"

text \<open>
  What a run does that is not a change of the file system, in order: console output
  (\<^verbatim>\<open>print\<close> and \<^verbatim>\<open>sys.stdout.write\<close>; message texts are kept without their line
  breaks, formatted values as the values), \<^verbatim>\<open>time.sleep\<close>, the calls on the network, and
  the records of \<^verbatim>\<open>logging.exception\<close>. The type \<open>'f\<close> is \<^verbatim>\<open>AssetPackageFlavor\<close>, an
  enumeration of \<^verbatim>\<open>bacommon.assets\<close> that this module only prints.

  In \<open>PrintStatus\<close> the percentage is the exact quotient; Python rounds it to a double.
  The only value of it that a statement below depends on is that of equal operands,
  which is exactly \<open>1\<close> in both.
\<close>

datatype 'f event =
    Print string
  | PrintWouldGather "string list" 'f string
  | PrintDownloading path int
  | PrintStatus int rat
  | Sleep nat
  | UrlOpen string nat
  | ReadCall nat
  | LogException string error

record 'f world =
  fs :: filesystem
  trace :: "'f event list"

definition emit :: "'f event \<Rightarrow> 'f world \<Rightarrow> 'f world" where
  "emit e w = w\<lparr>trace := trace w @ [e]\<rparr>"

definition is_dir :: "filesystem \<Rightarrow> path \<Rightarrow> bool" where
  "is_dir f p = (f p = Some Dir)"

definition exists :: "filesystem \<Rightarrow> path \<Rightarrow> bool" where
  "exists f p = (f p \<noteq> None)"

text \<open>
  \<^verbatim>\<open>open(p)\<close> followed by \<^verbatim>\<open>read()\<close>: fails on a directory and on a missing file.
\<close>

definition read_text :: "filesystem \<Rightarrow> path \<Rightarrow> error + bytes" where
  "read_text f p =
     (case f p of
        None \<Rightarrow> Inl OSError
      | Some Dir \<Rightarrow> Inl OSError
      | Some (File c) \<Rightarrow> Inr c)"

text \<open>
  \<^verbatim>\<open>open(p, 'w')\<close> and \<^verbatim>\<open>open(p, 'wb')\<close>: fails when \<open>p\<close> is a directory or when its
  parent is not an existing directory; otherwise the file exists afterwards and is empty.
\<close>

definition open_w :: "filesystem \<Rightarrow> path \<Rightarrow> error + filesystem" where
  "open_w f p =
     (if p = [] \<or> is_dir f p \<or> \<not> is_dir f (butlast p) then Inl OSError
      else Inr (f(p \<mapsto> File [])))"

text \<open>
  \<^verbatim>\<open>outfile.write(data)\<close> on the file opened at \<open>p\<close>. The model writes through: what
  Python buffers until the \<^verbatim>\<open>with\<close> block closes the file is on disk when the call
  returns, normally or by an exception, which is the only moment the theorems observe.
  A write to a file whose name was removed changes nothing visible.
\<close>

definition write_file :: "filesystem \<Rightarrow> path \<Rightarrow> bytes \<Rightarrow> filesystem" where
  "write_file f p d =
     (case f p of
        Some (File c) \<Rightarrow> f(p \<mapsto> File (c @ d))
      | _ \<Rightarrow> f)"

text \<open>
  \<^verbatim>\<open>os.unlink(p)\<close> of the file the routine itself has open (POSIX: the name goes, the
  open handle stays usable).
\<close>

definition unlink :: "filesystem \<Rightarrow> path \<Rightarrow> filesystem" where
  "unlink f p = f(p := None)"

subsection \<open>State and its codec\<close>

text \<open>
  \<^verbatim>\<open>FileValue\<close> has no fields; \<^verbatim>\<open>State\<close> has the one field \<^verbatim>\<open>files\<close>, a dictionary
  from \<^verbatim>\<open>str\<close> to \<^verbatim>\<open>FileValue\<close>.
\<close>

datatype FileValue = FileValue

record State =
  files :: "string \<rightharpoonup> FileValue"

text \<open>
  Modelled from the spec: \<^verbatim>\<open>State()\<close>, the default constructor that \<^verbatim>\<open>State\<close> inherits
  from \<^verbatim>\<open>efro.entity.Entity\<close>, which is not among the sources. The specification calls
  its result the default, empty State: no file is recorded.
\<close>

definition State_default :: State where
  "State_default = \<lparr>files = Map.empty\<rparr>"

text \<open>
  Modelled from the spec: the record codec, \<^verbatim>\<open>to_json_str\<close> and \<^verbatim>\<open>from_json_str\<close> of
  \<^verbatim>\<open>efro.entity.Entity\<close>, which is not among the sources. The specification treats it
  as an opaque collaborator, \<^verbatim>\<open>encode(State) -> text\<close> and
  \<^verbatim>\<open>decode(text) -> State | failure\<close>, so it is a parameter of every operation that uses
  it; either direction may raise.
\<close>

record codec =
  to_json_str :: "State \<Rightarrow> error + bytes"
  from_json_str :: "bytes \<Rightarrow> error + State"

text \<open>
  Modelled from the spec: what the specification expects of the codec for a round trip,
  namely that decoding the text it encodes a State to gives that State back.
\<close>

definition round_trips :: "codec \<Rightarrow> State \<Rightarrow> bool" where
  "round_trips c s =
     (case to_json_str c s of
        Inl e \<Rightarrow> False
      | Inr txt \<Rightarrow> from_json_str c txt = Inr s)"

subsection \<open>AssetManager\<close>

text \<open>
  The attributes \<^verbatim>\<open>_rootdir\<close>, \<^verbatim>\<open>_shutting_down\<close> and \<^verbatim>\<open>_state\<close>. The class only
  annotates \<^verbatim>\<open>_state\<close>; the attribute exists once \<^verbatim>\<open>load_state\<close> has assigned it, so it
  is optional here.
\<close>

record AssetManager =
  m_rootdir :: path
  m_shutting_down :: bool
  m_state :: "State option"

definition rootdir :: "AssetManager \<Rightarrow> path" where
  "rootdir m = m_rootdir m"

definition state_path :: "AssetManager \<Rightarrow> path" where
  "state_path m = m_rootdir m @ [''state'']"

text \<open>
  The \<^verbatim>\<open>try\<close> block of \<^verbatim>\<open>load_state\<close>: \<open>Inr (Some s)\<close> when it assigns \<open>s\<close> and returns,
  \<open>Inr None\<close> when the file does not exist and control falls through, \<open>Inl e\<close> when
  opening, reading or decoding raises \<open>e\<close>.
\<close>

definition load_state_try :: "codec \<Rightarrow> AssetManager \<Rightarrow> filesystem \<Rightarrow> error + State option" where
  "load_state_try c m f =
     (if exists f (state_path m) then
        (case read_text f (state_path m) of
           Inl e \<Rightarrow> Inl e
         | Inr txt \<Rightarrow>
             (case from_json_str c txt of
                Inl e \<Rightarrow> Inl e
              | Inr s \<Rightarrow> Inr (Some s)))
      else Inr None)"

definition load_state :: "codec \<Rightarrow> AssetManager \<Rightarrow> 'f world \<Rightarrow> AssetManager \<times> 'f world" where
  "load_state c m w =
     (let w1 = emit (Print ''AMAN LOADING STATE'') w in
      case load_state_try c m (fs w1) of
        Inr (Some s) \<Rightarrow> (m\<lparr>m_state := Some s\<rparr>, w1)
      | Inr None \<Rightarrow> (m\<lparr>m_state := Some State_default\<rparr>, w1)
      | Inl e \<Rightarrow>
          (m\<lparr>m_state := Some State_default\<rparr>,
           emit (LogException ''Error loading existing AssetManager state'' e) w1))"

text \<open>
  The \<^verbatim>\<open>try\<close> block of \<^verbatim>\<open>save_state\<close>. Python opens (and so truncates) the file first,
  then evaluates \<^verbatim>\<open>self._state.to_json_str()\<close>, then writes. The result is the exception,
  if any, and the file system as the block leaves it.
\<close>

definition save_state_try :: "codec \<Rightarrow> AssetManager \<Rightarrow> filesystem \<Rightarrow> error option \<times> filesystem" where
  "save_state_try c m f =
     (case open_w f (state_path m) of
        Inl e \<Rightarrow> (Some e, f)
      | Inr f1 \<Rightarrow>
          (case m_state m of
             None \<Rightarrow> (Some AttributeError, f1)
           | Some s \<Rightarrow>
               (case to_json_str c s of
                  Inl e \<Rightarrow> (Some e, f1)
                | Inr txt \<Rightarrow> (None, write_file f1 (state_path m) txt))))"

definition save_state :: "codec \<Rightarrow> AssetManager \<Rightarrow> 'f world \<Rightarrow> 'f world" where
  "save_state c m w =
     (let w1 = emit (Print ''AMAN SAVING STATE'') w in
      case save_state_try c m (fs w1) of
        (None, f) \<Rightarrow> w1\<lparr>fs := f\<rparr>
      | (Some e, f) \<Rightarrow>
          emit (LogException ''Error writing AssetManager state'' e) (w1\<lparr>fs := f\<rparr>))"

definition update :: "codec \<Rightarrow> AssetManager \<Rightarrow> 'f world \<Rightarrow> 'f world" where
  "update c m w = (if m_shutting_down m then save_state c m w else w)"

text \<open>
  \<^verbatim>\<open>AssetManager.__init__\<close>. \<open>AssetManager_new\<close> is the object as the first assignments
  leave it, which is also the object that exists (and is finalised) when the
  constructor raises.
\<close>

definition AssetManager_new :: "path \<Rightarrow> AssetManager" where
  "AssetManager_new r = \<lparr>m_rootdir = r, m_shutting_down = False, m_state = None\<rparr>"

definition AssetManager_init ::
  "codec \<Rightarrow> path \<Rightarrow> 'f world \<Rightarrow> (error + AssetManager) \<times> 'f world" where
  "AssetManager_init c r w =
     (let w1 = emit (Print ''AssetManager()'') w;
          m = AssetManager_new r
      in if \<not> is_dir (fs w1) (m_rootdir m) then (Inl RuntimeError, w1)
         else (case load_state c m w1 of (m', w2) \<Rightarrow> (Inr m', w2)))"

text \<open>\<^verbatim>\<open>AssetManager.__del__\<close>.\<close>

definition AssetManager_del :: "codec \<Rightarrow> AssetManager \<Rightarrow> 'f world \<Rightarrow> AssetManager \<times> 'f world" where
  "AssetManager_del c m w =
     (let m1 = m\<lparr>m_shutting_down := True\<rparr>;
          w1 = update c m1 w
      in (m1, emit (Print ''~AssetManager()'') w1))"

subsection \<open>The remote stream\<close>

text \<open>
  What \<^verbatim>\<open>ureq.read(block_sz)\<close> does: it returns a block of bytes, the empty block at
  the end of the stream, or it raises; \<open>Raises SocketTimeout\<close> is \<^verbatim>\<open>socket.timeout\<close>.
  The body of a response gives the result of the first, second, ... read of it. It is
  a function on all of \<open>nat\<close>: a stream need not end.
\<close>

datatype read_result = Data bytes | Raises error

record response =
  headers :: "string \<rightharpoonup> string"
  body :: "nat \<Rightarrow> read_result"

text \<open>
  What the Python runtime delivers. The streams \<^verbatim>\<open>urlopen\<close> returns for a network URL
  read their socket through \<^verbatim>\<open>socket.SocketIO\<close>, whose \<^verbatim>\<open>readinto\<close> remembers a timeout:
  once a read has raised \<^verbatim>\<open>socket.timeout\<close>, every later read of the same stream raises
  \<^verbatim>\<open>OSError("cannot read from timed out object")\<close>. (A stream that never times out,
  such as that of a local file, is of this kind too.)
\<close>

definition socket_stream :: "(nat \<Rightarrow> read_result) \<Rightarrow> bool" where
  "socket_stream b \<longleftrightarrow> (\<forall>i j. i < j \<longrightarrow> b i = Raises SocketTimeout \<longrightarrow> b j = Raises OSError)"

text \<open>
  What the routine finds around it: \<^verbatim>\<open>urllib.request.urlopen\<close>; Python's \<^verbatim>\<open>int\<close> on a
  \<^verbatim>\<open>str\<close> (\<open>None\<close> where it raises \<^verbatim>\<open>ValueError\<close>); and whether the \<^verbatim>\<open>AssetGather\<close> the
  download is for is still referenced by its owner once the given number of reads has
  been issued, which is what a call of the weak reference would tell.
\<close>

record env =
  urlopen :: "string \<Rightarrow> error + response"
  int_of_str :: "string \<Rightarrow> int option"
  gather_alive :: "nat \<Rightarrow> bool"

text \<open>
  \<^verbatim>\<open>int(ureq.headers["Content-Length"])\<close>: a missing header is \<^verbatim>\<open>None\<close>, and \<^verbatim>\<open>int(None)\<close>
  raises \<^verbatim>\<open>TypeError\<close>.
\<close>

definition py_int :: "env \<Rightarrow> string option \<Rightarrow> error + int" where
  "py_int e h =
     (case h of
        None \<Rightarrow> Inl TypeError
      | Some s \<Rightarrow>
          (case int_of_str e s of
             None \<Rightarrow> Inl ValueError
           | Some n \<Rightarrow> Inr n))"

subsection \<open>AssetGather and fetch_url\<close>

text \<open>
  The attributes \<^verbatim>\<open>_manager\<close> (a weak reference; the manager it refers to) and
  \<^verbatim>\<open>_valid\<close>. The property \<^verbatim>\<open>valid\<close> returns \<^verbatim>\<open>True\<close> and reads neither.
\<close>

record AssetGather =
  g_manager :: AssetManager
  g_valid :: bool

definition valid :: "AssetGather \<Rightarrow> bool" where
  "valid g = True"

definition block_sz :: nat where
  "block_sz = 1024 * 100 * 2"

text \<open>
  The least magnitude of an \<^verbatim>\<open>int\<close> that CPython refuses to convert to a \<^verbatim>\<open>float\<close>
  (\<^verbatim>\<open>OverflowError\<close>): the conversion rounds to nearest, ties to even, and
  \<open>2^1024 - 2^970\<close> is the first integer that rounds to \<open>2^1024\<close>.
\<close>

definition float_limit :: int where
  "float_limit = 2 ^ 1024 - 2 ^ 970"

text \<open>
  The variables of the loop: \<^verbatim>\<open>file_size_dl\<close>, \<^verbatim>\<open>time_outs\<close>, the number of reads issued
  on \<^verbatim>\<open>ureq\<close> so far (the stream's position), and the world.
\<close>

record 'f loop_state =
  file_size_dl :: int
  time_outs :: nat
  pos :: nat
  wld :: "'f world"

text \<open>
  One pass through the body of \<^verbatim>\<open>while True\<close>, given what the read does: \<open>Inl\<close> when
  the pass leaves the loop (by \<^verbatim>\<open>break\<close>, \<open>Inr ()\<close>, or by an exception), \<open>Inr\<close> with
  the new variables when the loop goes on.

  In \<^verbatim>\<open>percent = file_size_dl * 1.0 / file_size\<close> the product converts \<^verbatim>\<open>file_size_dl\<close>
  to a float, the division converts \<^verbatim>\<open>file_size\<close> and then refuses a zero divisor.
\<close>

definition iteration ::
  "path \<Rightarrow> int \<Rightarrow> read_result \<Rightarrow> 'f loop_state \<Rightarrow> ((error + unit) \<times> 'f world) + 'f loop_state" where
  "iteration filename file_size r st =
     (let w0 = emit (ReadCall block_sz) (wld st) in
      case r of
        Raises e \<Rightarrow>
          if e = SocketTimeout then
            if time_outs st > 3 then
              (let w1 = emit (Print ''sorry -- try back later'') w0
               in Inl (Inl SocketTimeout, w1\<lparr>fs := unlink (fs w1) filename\<rparr>))
            else
              (let w1 = emit (Print ''Hmmm... little issue... I'll wait a couple of seconds'') w0;
                   w2 = emit (Sleep 3) w1
               in Inr (st\<lparr>time_outs := time_outs st + 1, pos := Suc (pos st), wld := w2\<rparr>))
          else Inl (Inl e, w0)
      | Data d \<Rightarrow>
          if d = [] then Inl (Inr (), emit (Print ''Done!'') w0)
          else
            (let n = file_size_dl st + int (length d);
                 w1 = w0\<lparr>fs := write_file (fs w0) filename d\<rparr>
             in if float_limit \<le> n \<or> float_limit \<le> \<bar>file_size\<bar> then Inl (Inl OverflowError, w1)
                else if file_size = 0 then Inl (Inl ZeroDivisionError, w1)
                else
                  Inr (st\<lparr>file_size_dl := n, pos := Suc (pos st),
                          wld := emit (PrintStatus n (of_int n / of_int file_size)) w1\<rparr>)))"

text \<open>
  \<^verbatim>\<open>while True\<close>: pass after pass, each on the next read of the stream. \<open>None\<close> is a
  loop that never ends.
\<close>

partial_function (option) fetch_loop ::
  "(nat \<Rightarrow> read_result) \<Rightarrow> path \<Rightarrow> int \<Rightarrow> 'f loop_state \<Rightarrow> ((error + unit) \<times> 'f world) option" where
  "fetch_loop b filename file_size st =
     (case iteration filename file_size (b (pos st)) st of
        Inl out \<Rightarrow> Some out
      | Inr st' \<Rightarrow> fetch_loop b filename file_size st')"

declare fetch_loop.simps [code]

text \<open>The variables as \<^verbatim>\<open>fetch_url\<close> sets them before the loop.\<close>

definition loop_start :: "'f world \<Rightarrow> 'f loop_state" where
  "loop_start w = \<lparr>file_size_dl = 0, time_outs = 0, pos = 0, wld = w\<rparr>"

text \<open>
  \<^verbatim>\<open>fetch_url\<close>. The routine binds \<^verbatim>\<open>weak_gather = weakref.ref(asset_gather)\<close> and never
  calls it, so nothing below reads \<open>gather_alive\<close>. An exception leaves through the
  \<^verbatim>\<open>with\<close> block, which closes the file and lets it stand.
\<close>

definition fetch_url ::
  "env \<Rightarrow> string \<Rightarrow> path \<Rightarrow> AssetGather \<Rightarrow> 'f world \<Rightarrow> ((error + unit) \<times> 'f world) option" where
  "fetch_url e url filename asset_gather w =
     (let w0 = emit (UrlOpen url 1) w in
      case urlopen e url of
        Inl x \<Rightarrow> Some (Inl x, w0)
      | Inr ureq \<Rightarrow>
          (case py_int e (headers ureq ''Content-Length'') of
             Inl x \<Rightarrow> Some (Inl x, w0)
           | Inr file_size \<Rightarrow>
               (let w1 = emit (PrintDownloading filename file_size) w0 in
                case open_w (fs w1) filename of
                  Inl x \<Rightarrow> Some (Inl x, w1)
                | Inr f \<Rightarrow>
                    fetch_loop (body ureq) filename file_size (loop_start (w1\<lparr>fs := f\<rparr>)))))"

text \<open>
  \<^verbatim>\<open>AssetGather.__init__\<close> and \<^verbatim>\<open>AssetManager.launch_gather\<close>. An exception of
  \<^verbatim>\<open>fetch_url\<close> leaves both; a download that never ends keeps both from returning.
\<close>

definition gather_url :: string where
  "gather_url = ''http://www.python.org/ftp/python/2.7.3/Python-2.7.3.tgz''"

definition AssetGather_init ::
  "env \<Rightarrow> AssetManager \<Rightarrow> 'f world \<Rightarrow> ((error + AssetGather) \<times> 'f world) option" where
  "AssetGather_init e manager w =
     (let self = \<lparr>g_manager = manager, g_valid = True\<rparr>;
          w1 = emit (Print ''AssetGather()'') w
      in case fetch_url e gather_url (rootdir manager @ [''testdl'']) self w1 of
           None \<Rightarrow> None
         | Some (Inl x, w2) \<Rightarrow> Some (Inl x, w2)
         | Some (Inr u, w2) \<Rightarrow> Some (Inr self, emit (Print ''fetch success'') w2))"

definition launch_gather ::
  "env \<Rightarrow> AssetManager \<Rightarrow> string list \<Rightarrow> 'f \<Rightarrow> string \<Rightarrow> 'f world \<Rightarrow>
     ((error + AssetGather) \<times> 'f world) option" where
  "launch_gather e m packages flavor account_token w =
     AssetGather_init e m (emit (PrintWouldGather packages flavor account_token) w)"

subsection \<open>Notions for stating the properties\<close>

text \<open>
  The variables of the loop after \<open>n\<close> passes, counted from the state \<open>st\<close>; \<open>None\<close>
  when the loop has been left before.
\<close>

fun loop_after ::
  "nat \<Rightarrow> (nat \<Rightarrow> read_result) \<Rightarrow> path \<Rightarrow> int \<Rightarrow> 'f loop_state \<Rightarrow> 'f loop_state option" where
  "loop_after 0 b filename file_size st = Some st"
| "loop_after (Suc n) b filename file_size st =
     (case iteration filename file_size (b (pos st)) st of
        Inl out \<Rightarrow> None
      | Inr st' \<Rightarrow> loop_after n b filename file_size st')"

text \<open>
  The variables of the loop of the call \<open>fetch_url e url filename g w\<close> after \<open>k\<close>
  passes, that is, once \<open>k\<close> reads have been issued; \<open>None\<close> when the call does not
  reach the loop or has left it before.
\<close>

definition running_after :: "nat \<Rightarrow> env \<Rightarrow> string \<Rightarrow> path \<Rightarrow> 'f world \<Rightarrow> 'f loop_state option" where
  "running_after k e url filename w =
     (case urlopen e url of
        Inl x \<Rightarrow> None
      | Inr ureq \<Rightarrow>
          (case py_int e (headers ureq ''Content-Length'') of
             Inl x \<Rightarrow> None
           | Inr file_size \<Rightarrow>
               (let w1 = emit (PrintDownloading filename file_size) (emit (UrlOpen url 1) w) in
                case open_w (fs w1) filename of
                  Inl x \<Rightarrow> None
                | Inr f \<Rightarrow> loop_after k (body ureq) filename file_size (loop_start (w1\<lparr>fs := f\<rparr>)))))"

text \<open>
  Two states of the loop, or two results of it, that differ in the console history at
  most.
\<close>

definition alike :: "'f loop_state \<Rightarrow> 'g loop_state \<Rightarrow> bool" where
  "alike st st' \<longleftrightarrow>
     file_size_dl st = file_size_dl st' \<and> time_outs st = time_outs st' \<and> pos st = pos st'
     \<and> fs (wld st) = fs (wld st')"

definition alike_out :: "(error + unit) \<times> 'f world \<Rightarrow> (error + unit) \<times> 'g world \<Rightarrow> bool" where
  "alike_out x y \<longleftrightarrow> fst x = fst y \<and> fs (snd x) = fs (snd y)"

text \<open>What is observable of a call apart from the console: its result and the file system.\<close>

definition outcome :: "('r \<times> 'f world) option \<Rightarrow> ('r \<times> filesystem) option" where
  "outcome x = map_option (\<lambda>(r, w). (r, fs w)) x"

text \<open>
  What a download that runs undisturbed adds to the console history for the blocks
  \<open>cs\<close>, the byte count being \<open>n\<close> before them: for each block the read and the
  status line; and the byte counts of the status lines of a history.
\<close>

fun progress :: "int \<Rightarrow> int \<Rightarrow> bytes list \<Rightarrow> 'f event list" where
  "progress file_size n [] = []"
| "progress file_size n (c # cs) =
     [ReadCall block_sz,
      PrintStatus (n + int (length c)) (of_int (n + int (length c)) / of_int file_size)]
     @ progress file_size (n + int (length c)) cs"

fun status_counts :: "'f event list \<Rightarrow> int list" where
  "status_counts [] = []"
| "status_counts (PrintStatus n p # es) = n # status_counts es"
| "status_counts (e # es) = status_counts es"

subsection \<open>Concrete instances\<close>

text \<open>
  A remote stream given by the results of its first reads (it is at its end after
  them), served at the URL of \<open>gather_url\<close>; a remote stream that delivers some blocks
  and then stalls, so that the read after them times out and every later one finds the
  timed out object; a network on which \<^verbatim>\<open>urlopen\<close> itself raises; the plain reading of
  an unsigned decimal numeral, for \<open>int_of_str\<close>; a codec that tells two states apart
  and one that cannot encode; and a root directory \<^verbatim>\<open>assets\<close> with a manager on it,
  without and with a state file.
\<close>

definition script_body :: "read_result list \<Rightarrow> nat \<Rightarrow> read_result" where
  "script_body xs i = (if i < length xs then xs ! i else Data [])"

definition digit :: "char \<Rightarrow> int option" where
  "digit c =
     (let k = (of_char c :: nat)
      in if 48 \<le> k \<and> k \<le> 57 then Some (int k - 48) else None)"

fun dec_digits :: "int \<Rightarrow> string \<Rightarrow> int option" where
  "dec_digits acc [] = Some acc"
| "dec_digits acc (c # cs) =
     (case digit c of
        None \<Rightarrow> None
      | Some d \<Rightarrow> dec_digits (10 * acc + d) cs)"

definition dec_int :: "string \<Rightarrow> int option" where
  "dec_int s = (if s = [] then None else dec_digits 0 s)"

definition demo_env :: "string option \<Rightarrow> read_result list \<Rightarrow> (nat \<Rightarrow> bool) \<Rightarrow> env" where
  "demo_env h xs alive =
     \<lparr>urlopen =
        (\<lambda>u. if u = gather_url
              then Inr \<lparr>headers = (\<lambda>k. if k = ''Content-Length'' then h else None),
                        body = script_body xs\<rparr>
              else Inl (OtherError ''no route'')),
      int_of_str = dec_int,
      gather_alive = alive\<rparr>"

definition stalling_body :: "bytes list \<Rightarrow> nat \<Rightarrow> read_result" where
  "stalling_body cs i =
     (if i < length cs then Data (cs ! i)
      else if i = length cs then Raises SocketTimeout
      else Raises OSError)"

definition stall_env :: "string option \<Rightarrow> bytes list \<Rightarrow> env" where
  "stall_env h cs =
     \<lparr>urlopen =
        (\<lambda>u. if u = gather_url
              then Inr \<lparr>headers = (\<lambda>k. if k = ''Content-Length'' then h else None),
                        body = stalling_body cs\<rparr>
              else Inl (OtherError ''no route'')),
      int_of_str = dec_int,
      gather_alive = (\<lambda>n. True)\<rparr>"

definition refusing_env :: env where
  "refusing_env =
     \<lparr>urlopen = (\<lambda>u. Inl ValueError), int_of_str = dec_int, gather_alive = (\<lambda>n. True)\<rparr>"

definition toy_codec :: codec where
  "toy_codec =
     \<lparr>to_json_str = (\<lambda>s. Inr (case files s ''a'' of None \<Rightarrow> ''{}'' | Some v \<Rightarrow> ''{a}'')),
      from_json_str =
        (\<lambda>t. if t = ''{}'' then Inr State_default
              else if t = ''{a}'' then Inr \<lparr>files = [''a'' \<mapsto> FileValue]\<rparr>
              else Inl ValueError)\<rparr>"

definition failing_codec :: codec where
  "failing_codec =
     \<lparr>to_json_str = (\<lambda>s. Inl (OtherError ''cannot encode'')),
      from_json_str = (\<lambda>t. Inl ValueError)\<rparr>"

definition demo_world :: "unit world" where
  "demo_world = \<lparr>fs = [[''assets''] \<mapsto> Dir], trace = []\<rparr>"

definition blocked_world :: "unit world" where
  "blocked_world = \<lparr>fs = [[''assets''] \<mapsto> Dir, [''assets'', ''state''] \<mapsto> Dir], trace = []\<rparr>"

definition stored_world :: "unit world" where
  "stored_world =
     \<lparr>fs = [[''assets''] \<mapsto> Dir, [''assets'', ''state''] \<mapsto> File ''{a}''], trace = []\<rparr>"

definition demo_manager :: AssetManager where
  "demo_manager =
     \<lparr>m_rootdir = [''assets''], m_shutting_down = False,
      m_state = Some \<lparr>files = [''a'' \<mapsto> FileValue]\<rparr>\<rparr>"

definition demo_gather :: AssetGather where
  "demo_gather = \<lparr>g_manager = demo_manager, g_valid = True\<rparr>"

section \<open>Properties\<close>

subsection \<open>The world\<close>

lemma fs_emit [simp]: "fs (emit e w) = fs w"
  by (simp add: emit_def)

lemma trace_emit [simp]: "trace (emit e w) = trace w @ [e]"
  by (simp add: emit_def)

lemma open_w_parent: "\<not> is_dir f r \<Longrightarrow> open_w f (r @ [x]) = Inl OSError"
  by (simp add: open_w_def)

lemma open_w_fs: "open_w f p = Inr f1 \<Longrightarrow> f1 = f(p \<mapsto> File [])"
  by (simp add: open_w_def split: if_splits)

subsection \<open>Construction\<close>

lemma save_state_no_dir: "\<not> is_dir (fs w) (m_rootdir m) \<Longrightarrow> fs (save_state c m w) = fs w"
  by (simp add: save_state_def save_state_try_def state_path_def open_w_parent)

text \<open>
  Claim C5. For every path that is not an existing directory, constructing an
  AssetManager with it as root directory fails with the constructor's \<open>RuntimeError\<close>
  (the specification's ConfigurationError), and the failed construction leaves no side
  effect: no manager results and no state is loaded (the attribute of the abandoned
  object is unset, and the call does nothing after its first console line), and the
  file system is as it was, also after the finaliser has run on the abandoned object.
\<close>

theorem init_rejects_non_directory:
  assumes "\<not> is_dir (fs w) r"
  shows "AssetManager_init c r w = (Inl RuntimeError, emit (Print ''AssetManager()'') w)
       \<and> fs (snd (AssetManager_init c r w)) = fs w
       \<and> m_state (AssetManager_new r) = None
       \<and> fs (snd (AssetManager_del c (AssetManager_new r) (snd (AssetManager_init c r w)))) = fs w"
proof -
  have init: "AssetManager_init c r w = (Inl RuntimeError, emit (Print ''AssetManager()'') w)"
    using assms by (simp add: AssetManager_init_def AssetManager_new_def)
  have del: "fs (snd (AssetManager_del c (AssetManager_new r) w')) = fs w'"
    if "fs w' = fs w" for w' :: "'a world"
    using assms that
    by (simp add: AssetManager_del_def update_def AssetManager_new_def save_state_no_dir Let_def)
  show ?thesis
    using init del [of "emit (Print ''AssetManager()'') w"]
    by (simp add: AssetManager_new_def)
qed

theorem init_rejects_non_directory_witness:
  "\<not> is_dir (fs demo_world) [''nowhere'']
   \<and> AssetManager_init toy_codec [''nowhere''] demo_world
       = (Inl RuntimeError, \<lparr>fs = [[''assets''] \<mapsto> Dir], trace = [Print ''AssetManager()'']\<rparr>)"
  using init_rejects_non_directory [of demo_world "[''nowhere'']" toy_codec]
  by (simp add: demo_world_def is_dir_def emit_def)

subsection \<open>Loading and saving the state\<close>

text \<open>
  Claim C6. \<open>load_state\<close> never raises to its caller (it is a total function with no
  error result: the handler catches what the block raises). If the state file is
  missing, or reading it fails, or decoding what was read fails, the manager's state is
  the default State; if reading and decoding succeed, it is the decoded State. Nothing
  else of the manager and nothing of the file system changes.
\<close>

theorem load_state_never_raises:
  "(\<not> exists (fs w) (state_path m) \<longrightarrow> m_state (fst (load_state c m w)) = Some State_default)
   \<and> (\<forall>e. read_text (fs w) (state_path m) = Inl e
         \<longrightarrow> m_state (fst (load_state c m w)) = Some State_default)
   \<and> (\<forall>t e. read_text (fs w) (state_path m) = Inr t \<and> from_json_str c t = Inl e
         \<longrightarrow> m_state (fst (load_state c m w)) = Some State_default)
   \<and> (\<forall>t s. read_text (fs w) (state_path m) = Inr t \<and> from_json_str c t = Inr s
         \<longrightarrow> m_state (fst (load_state c m w)) = Some s)
   \<and> fs (snd (load_state c m w)) = fs w
   \<and> m_rootdir (fst (load_state c m w)) = m_rootdir m
   \<and> m_shutting_down (fst (load_state c m w)) = m_shutting_down m"
  by (auto simp: load_state_def load_state_try_def Let_def exists_def read_text_def
           split: sum.splits option.splits node.splits)

theorem load_state_never_raises_witness:
  "\<not> exists (fs demo_world) (state_path demo_manager)
   \<and> m_state (fst (load_state toy_codec demo_manager demo_world)) = Some State_default
   \<and> read_text (fs blocked_world) (state_path demo_manager) = Inl OSError
   \<and> m_state (fst (load_state toy_codec demo_manager blocked_world)) = Some State_default
   \<and> read_text [[''assets''] \<mapsto> Dir, [''assets'', ''state''] \<mapsto> File ''junk'']
        (state_path demo_manager) = Inr ''junk''
   \<and> from_json_str toy_codec ''junk'' = Inl ValueError
   \<and> m_state (fst (load_state toy_codec demo_manager
         \<lparr>fs = [[''assets''] \<mapsto> Dir, [''assets'', ''state''] \<mapsto> File ''junk''],
          trace = [] :: unit event list\<rparr>))
       = Some State_default
   \<and> read_text [[''assets''] \<mapsto> Dir, [''assets'', ''state''] \<mapsto> File ''{a}'']
        (state_path demo_manager) = Inr ''{a}''
   \<and> from_json_str toy_codec ''{a}'' = Inr \<lparr>files = [''a'' \<mapsto> FileValue]\<rparr>
   \<and> m_state (fst (load_state toy_codec (AssetManager_new [''assets''])
         \<lparr>fs = [[''assets''] \<mapsto> Dir, [''assets'', ''state''] \<mapsto> File ''{a}''],
          trace = [] :: unit event list\<rparr>))
       = Some \<lparr>files = [''a'' \<mapsto> FileValue]\<rparr>"
  using load_state_never_raises [of demo_world demo_manager toy_codec]
    load_state_never_raises [of blocked_world demo_manager toy_codec]
    load_state_never_raises
      [of "\<lparr>fs = [[''assets''] \<mapsto> Dir, [''assets'', ''state''] \<mapsto> File ''junk''],
            trace = [] :: unit event list\<rparr>" demo_manager toy_codec]
    load_state_never_raises
      [of "\<lparr>fs = [[''assets''] \<mapsto> Dir, [''assets'', ''state''] \<mapsto> File ''{a}''],
            trace = [] :: unit event list\<rparr>" "AssetManager_new [''assets'']" toy_codec]
  by (simp add: demo_world_def blocked_world_def demo_manager_def AssetManager_new_def
        state_path_def exists_def read_text_def toy_codec_def)

lemma save_state_writes:
  assumes "m_state m = Some s" and "to_json_str c s = Inr t"
    and "open_w (fs w) (state_path m) = Inr f1"
  shows "fs (save_state c m w) = (fs w)(state_path m \<mapsto> File t)"
  using assms open_w_fs [OF assms(3)]
  by (simp add: save_state_def save_state_try_def write_file_def Let_def)

text \<open>
  Claim C7. For every State, saving it with \<open>save_state\<close> and then loading the same
  path with \<open>load_state\<close> yields a State equal to the original, given that the write
  succeeds (the state file can be opened for writing; the read of the file just written
  then succeeds as well) and that the codec decodes what it encodes this State to.
\<close>

theorem save_then_load_round_trip:
  assumes "m_state m = Some s"
    and "round_trips c s"
    and "open_w (fs w) (state_path m) = Inr f1"
    and "state_path m0 = state_path m"
  shows "m_state (fst (load_state c m0 (save_state c m w))) = Some s"
proof -
  from assms(2) obtain t where enc: "to_json_str c s = Inr t" and dec: "from_json_str c t = Inr s"
    by (auto simp: round_trips_def split: sum.splits)
  have "fs (save_state c m w) = (fs w)(state_path m \<mapsto> File t)"
    using assms(1) enc assms(3) by (rule save_state_writes)
  then show ?thesis
    using dec assms(4)
    by (simp add: load_state_def load_state_try_def Let_def exists_def read_text_def)
qed

theorem save_then_load_round_trip_witness:
  "m_state demo_manager = Some \<lparr>files = [''a'' \<mapsto> FileValue]\<rparr>
   \<and> round_trips toy_codec \<lparr>files = [''a'' \<mapsto> FileValue]\<rparr>
   \<and> open_w (fs demo_world) (state_path demo_manager)
       = Inr [[''assets''] \<mapsto> Dir, [''assets'', ''state''] \<mapsto> File []]
   \<and> m_state (fst (load_state toy_codec (AssetManager_new [''assets''])
         (save_state toy_codec demo_manager demo_world)))
       = Some \<lparr>files = [''a'' \<mapsto> FileValue]\<rparr>"
  using save_then_load_round_trip
    [of demo_manager "\<lparr>files = [''a'' \<mapsto> FileValue]\<rparr>" toy_codec demo_world
      "[[''assets''] \<mapsto> Dir, [''assets'', ''state''] \<mapsto> File []]" "AssetManager_new [''assets'']"]
  by (simp add: demo_world_def demo_manager_def AssetManager_new_def state_path_def
        round_trips_def toy_codec_def open_w_def is_dir_def)

subsection \<open>Teardown\<close>

text \<open>
  Against claim C8 as stated: teardown does not always persist the state. Where
  \<^verbatim>\<open><rootdir>/state\<close> is a directory a manager can be constructed (it falls back to the
  default State) and destroyed, and the save of the teardown fails: the error is logged
  and swallowed, and no state file results.
\<close>

theorem teardown_may_not_persist:
  "AssetManager_init toy_codec [''assets''] blocked_world
     = (Inr \<lparr>m_rootdir = [''assets''], m_shutting_down = False, m_state = Some State_default\<rparr>,
        \<lparr>fs = fs blocked_world,
         trace = [Print ''AssetManager()'', Print ''AMAN LOADING STATE'',
                  LogException ''Error loading existing AssetManager state'' OSError]\<rparr>)
   \<and> AssetManager_del toy_codec
        \<lparr>m_rootdir = [''assets''], m_shutting_down = False, m_state = Some State_default\<rparr> blocked_world
     = (\<lparr>m_rootdir = [''assets''], m_shutting_down = True, m_state = Some State_default\<rparr>,
        \<lparr>fs = fs blocked_world,
         trace = [Print ''AMAN SAVING STATE'',
                  LogException ''Error writing AssetManager state'' OSError,
                  Print ''~AssetManager()'']\<rparr>)
   \<and> fs blocked_world [''assets'', ''state''] = Some Dir"
  by (simp add: AssetManager_init_def AssetManager_new_def AssetManager_del_def update_def
        load_state_def load_state_try_def save_state_def save_state_try_def state_path_def
        blocked_world_def exists_def read_text_def open_w_def is_dir_def emit_def Let_def)

text \<open>
  Claim C8, amended. Destroying an AssetManager always sets the shutting-down flag and
  then calls \<open>update\<close>, which calls \<open>save_state\<close> exactly when the manager is shutting
  down; so teardown always attempts the save and never raises. When the state file can
  be opened for writing and the state encodes, the state file holds the encoding of the
  in-memory state afterwards. When the file cannot be opened, the file system is left
  as it was; when it can but the state does not encode (or was never loaded), the state
  file is left empty. In both cases the error is logged and swallowed. \<open>update\<close> called
  when not shutting down performs no save and changes nothing.
\<close>

theorem teardown_saves_when_possible:
  "fst (AssetManager_del c m w) = m\<lparr>m_shutting_down := True\<rparr>
   \<and> snd (AssetManager_del c m w)
       = emit (Print ''~AssetManager()'') (save_state c (m\<lparr>m_shutting_down := True\<rparr>) w)
   \<and> (\<forall>s t f1. m_state m = Some s \<and> to_json_str c s = Inr t
          \<and> open_w (fs w) (state_path m) = Inr f1
        \<longrightarrow> snd (AssetManager_del c m w)
            = \<lparr>fs = (fs w)(state_path m \<mapsto> File t),
               trace = trace w @ [Print ''AMAN SAVING STATE'', Print ''~AssetManager()'']\<rparr>)
   \<and> (\<forall>x. open_w (fs w) (state_path m) = Inl x
        \<longrightarrow> snd (AssetManager_del c m w)
            = \<lparr>fs = fs w,
               trace = trace w @ [Print ''AMAN SAVING STATE'',
                 LogException ''Error writing AssetManager state'' x,
                 Print ''~AssetManager()'']\<rparr>)
   \<and> (\<forall>s x f1. m_state m = Some s \<and> to_json_str c s = Inl x
          \<and> open_w (fs w) (state_path m) = Inr f1
        \<longrightarrow> snd (AssetManager_del c m w)
            = \<lparr>fs = (fs w)(state_path m \<mapsto> File []),
               trace = trace w @ [Print ''AMAN SAVING STATE'',
                 LogException ''Error writing AssetManager state'' x,
                 Print ''~AssetManager()'']\<rparr>)
   \<and> (\<forall>f1. m_state m = None \<and> open_w (fs w) (state_path m) = Inr f1
        \<longrightarrow> snd (AssetManager_del c m w)
            = \<lparr>fs = (fs w)(state_path m \<mapsto> File []),
               trace = trace w @ [Print ''AMAN SAVING STATE'',
                 LogException ''Error writing AssetManager state'' AttributeError,
                 Print ''~AssetManager()'']\<rparr>)
   \<and> (m_shutting_down m \<longrightarrow> update c m w = save_state c m w)
   \<and> (\<not> m_shutting_down m \<longrightarrow> update c m w = w)"
proof -
  let ?m = "m\<lparr>m_shutting_down := True\<rparr>"
  have del: "AssetManager_del c m w = (?m, emit (Print ''~AssetManager()'') (save_state c ?m w))"
    by (simp add: AssetManager_del_def update_def Let_def)
  have sp: "state_path ?m = state_path m"
    by (simp add: state_path_def)
  have ok: "save_state c ?m w
      = \<lparr>fs = (fs w)(state_path m \<mapsto> File t), trace = trace w @ [Print ''AMAN SAVING STATE'']\<rparr>"
    if "m_state m = Some s" "to_json_str c s = Inr t" "open_w (fs w) (state_path m) = Inr f1"
    for s t f1
    using that open_w_fs [OF that(3)]
    by (simp add: save_state_def save_state_try_def sp write_file_def emit_def Let_def)
  have no_open: "save_state c ?m w
      = \<lparr>fs = fs w, trace = trace w @ [Print ''AMAN SAVING STATE'',
            LogException ''Error writing AssetManager state'' x]\<rparr>"
    if "open_w (fs w) (state_path m) = Inl x" for x
    using that by (simp add: save_state_def save_state_try_def sp emit_def Let_def)
  have no_encode: "save_state c ?m w
      = \<lparr>fs = (fs w)(state_path m \<mapsto> File []), trace = trace w @ [Print ''AMAN SAVING STATE'',
            LogException ''Error writing AssetManager state'' x]\<rparr>"
    if "m_state m = Some s" "to_json_str c s = Inl x" "open_w (fs w) (state_path m) = Inr f1"
    for s x f1
    using that open_w_fs [OF that(3)]
    by (simp add: save_state_def save_state_try_def sp emit_def Let_def)
  have no_state: "save_state c ?m w
      = \<lparr>fs = (fs w)(state_path m \<mapsto> File []), trace = trace w @ [Print ''AMAN SAVING STATE'',
            LogException ''Error writing AssetManager state'' AttributeError]\<rparr>"
    if "m_state m = None" "open_w (fs w) (state_path m) = Inr f1" for f1
    using that open_w_fs [OF that(2)]
    by (simp add: save_state_def save_state_try_def sp emit_def Let_def)
  show ?thesis
    unfolding del fst_conv snd_conv
    using ok no_open no_encode no_state
    by (auto simp: update_def emit_def)
qed

theorem teardown_saves_when_possible_witness:
  "m_state demo_manager = Some \<lparr>files = [''a'' \<mapsto> FileValue]\<rparr>
   \<and> to_json_str toy_codec \<lparr>files = [''a'' \<mapsto> FileValue]\<rparr> = Inr ''{a}''
   \<and> open_w (fs demo_world) (state_path demo_manager)
       = Inr [[''assets''] \<mapsto> Dir, [''assets'', ''state''] \<mapsto> File []]
   \<and> snd (AssetManager_del toy_codec demo_manager demo_world)
       = \<lparr>fs = [[''assets''] \<mapsto> Dir, [''assets'', ''state''] \<mapsto> File ''{a}''],
          trace = [Print ''AMAN SAVING STATE'', Print ''~AssetManager()'']\<rparr>
   \<and> open_w (fs blocked_world) (state_path demo_manager) = Inl OSError
   \<and> snd (AssetManager_del toy_codec demo_manager blocked_world)
       = \<lparr>fs = [[''assets''] \<mapsto> Dir, [''assets'', ''state''] \<mapsto> Dir],
          trace = [Print ''AMAN SAVING STATE'',
                   LogException ''Error writing AssetManager state'' OSError,
                   Print ''~AssetManager()'']\<rparr>
   \<and> to_json_str failing_codec \<lparr>files = [''a'' \<mapsto> FileValue]\<rparr> = Inl (OtherError ''cannot encode'')
   \<and> open_w (fs stored_world) (state_path demo_manager)
       = Inr [[''assets''] \<mapsto> Dir, [''assets'', ''state''] \<mapsto> File []]
   \<and> snd (AssetManager_del failing_codec demo_manager stored_world)
       = \<lparr>fs = [[''assets''] \<mapsto> Dir, [''assets'', ''state''] \<mapsto> File []],
          trace = [Print ''AMAN SAVING STATE'',
                   LogException ''Error writing AssetManager state'' (OtherError ''cannot encode''),
                   Print ''~AssetManager()'']\<rparr>
   \<and> m_state (AssetManager_new [''assets'']) = None
   \<and> snd (AssetManager_del toy_codec (AssetManager_new [''assets'']) stored_world)
       = \<lparr>fs = [[''assets''] \<mapsto> Dir, [''assets'', ''state''] \<mapsto> File []],
          trace = [Print ''AMAN SAVING STATE'',
                   LogException ''Error writing AssetManager state'' AttributeError,
                   Print ''~AssetManager()'']\<rparr>
   \<and> \<not> m_shutting_down demo_manager
   \<and> update toy_codec demo_manager demo_world = demo_world"
proof -
  let ?s = "\<lparr>files = [''a'' \<mapsto> FileValue]\<rparr>"
  let ?f0 = "[[''assets''] \<mapsto> Dir, [''assets'', ''state''] \<mapsto> File []] :: filesystem"
  have h1: "m_state demo_manager = Some ?s"
    by (simp add: demo_manager_def)
  have h2: "to_json_str toy_codec ?s = Inr ''{a}''"
    by (simp add: toy_codec_def)
  have h3: "open_w (fs demo_world) (state_path demo_manager) = Inr ?f0"
    by (simp add: demo_world_def demo_manager_def state_path_def open_w_def is_dir_def)
  have h4: "\<not> m_shutting_down demo_manager"
    by (simp add: demo_manager_def)
  have h5: "open_w (fs blocked_world) (state_path demo_manager) = Inl OSError"
    by (simp add: blocked_world_def demo_manager_def state_path_def open_w_def is_dir_def)
  have h6: "to_json_str failing_codec ?s = Inl (OtherError ''cannot encode'')"
    by (simp add: failing_codec_def)
  have h7: "open_w (fs stored_world) (state_path demo_manager) = Inr ?f0"
    by (simp add: stored_world_def demo_manager_def state_path_def open_w_def is_dir_def fun_eq_iff)
  have h8: "m_state (AssetManager_new [''assets'']) = None"
    by (simp add: AssetManager_new_def)
  have h9: "open_w (fs stored_world) (state_path (AssetManager_new [''assets''])) = Inr ?f0"
    by (simp add: stored_world_def AssetManager_new_def state_path_def open_w_def is_dir_def fun_eq_iff)
  have sp: "state_path demo_manager = [''assets'', ''state'']"
    "state_path (AssetManager_new [''assets'']) = [''assets'', ''state'']"
    by (simp_all add: demo_manager_def AssetManager_new_def state_path_def)
  note A = teardown_saves_when_possible [of toy_codec demo_manager demo_world]
  note B = teardown_saves_when_possible [of toy_codec demo_manager blocked_world]
  note C = teardown_saves_when_possible [of failing_codec demo_manager stored_world]
  note D = teardown_saves_when_possible [of toy_codec "AssetManager_new [''assets'']" stored_world]
  from A h1 h2 h3 have "snd (AssetManager_del toy_codec demo_manager demo_world)
       = \<lparr>fs = (fs demo_world)(state_path demo_manager \<mapsto> File ''{a}''),
          trace = trace demo_world @ [Print ''AMAN SAVING STATE'', Print ''~AssetManager()'']\<rparr>"
    by blast
  then have a: "snd (AssetManager_del toy_codec demo_manager demo_world)
       = \<lparr>fs = [[''assets''] \<mapsto> Dir, [''assets'', ''state''] \<mapsto> File ''{a}''],
          trace = [Print ''AMAN SAVING STATE'', Print ''~AssetManager()'']\<rparr>"
    by (simp add: sp) (simp add: demo_world_def)
  from A h4 have a': "update toy_codec demo_manager demo_world = demo_world"
    by blast
  from B h5 have "snd (AssetManager_del toy_codec demo_manager blocked_world)
       = \<lparr>fs = fs blocked_world,
          trace = trace blocked_world @ [Print ''AMAN SAVING STATE'',
                   LogException ''Error writing AssetManager state'' OSError,
                   Print ''~AssetManager()'']\<rparr>"
    by blast
  then have b: "snd (AssetManager_del toy_codec demo_manager blocked_world)
       = \<lparr>fs = [[''assets''] \<mapsto> Dir, [''assets'', ''state''] \<mapsto> Dir],
          trace = [Print ''AMAN SAVING STATE'',
                   LogException ''Error writing AssetManager state'' OSError,
                   Print ''~AssetManager()'']\<rparr>"
    by (simp add: blocked_world_def)
  from C h1 h6 h7 have "snd (AssetManager_del failing_codec demo_manager stored_world)
       = \<lparr>fs = (fs stored_world)(state_path demo_manager \<mapsto> File []),
          trace = trace stored_world @ [Print ''AMAN SAVING STATE'',
                   LogException ''Error writing AssetManager state'' (OtherError ''cannot encode''),
                   Print ''~AssetManager()'']\<rparr>"
    by blast
  then have c: "snd (AssetManager_del failing_codec demo_manager stored_world)
       = \<lparr>fs = [[''assets''] \<mapsto> Dir, [''assets'', ''state''] \<mapsto> File []],
          trace = [Print ''AMAN SAVING STATE'',
                   LogException ''Error writing AssetManager state'' (OtherError ''cannot encode''),
                   Print ''~AssetManager()'']\<rparr>"
    by (simp add: sp) (simp add: stored_world_def)
  from D h8 h9 have "snd (AssetManager_del toy_codec (AssetManager_new [''assets'']) stored_world)
       = \<lparr>fs = (fs stored_world)(state_path (AssetManager_new [''assets'']) \<mapsto> File []),
          trace = trace stored_world @ [Print ''AMAN SAVING STATE'',
                   LogException ''Error writing AssetManager state'' AttributeError,
                   Print ''~AssetManager()'']\<rparr>"
    by blast
  then have d: "snd (AssetManager_del toy_codec (AssetManager_new [''assets'']) stored_world)
       = \<lparr>fs = [[''assets''] \<mapsto> Dir, [''assets'', ''state''] \<mapsto> File []],
          trace = [Print ''AMAN SAVING STATE'',
                   LogException ''Error writing AssetManager state'' AttributeError,
                   Print ''~AssetManager()'']\<rparr>"
    by (simp add: sp) (simp add: stored_world_def)
  from h1 h2 h3 h4 h5 h6 h7 h8 a a' b c d show ?thesis
    by blast
qed

subsection \<open>The loop of fetch_url\<close>

lemma fetch_loop_exit:
  "iteration filename file_size (b (pos st)) st = Inl out \<Longrightarrow>
   fetch_loop b filename file_size st = Some out"
  by (subst fetch_loop.simps) simp

lemma fetch_loop_step:
  "iteration filename file_size (b (pos st)) st = Inr st' \<Longrightarrow>
   fetch_loop b filename file_size st = fetch_loop b filename file_size st'"
  by (subst fetch_loop.simps) simp

lemma loop_after_Suc_D:
  assumes "loop_after (Suc n) b filename file_size st = Some st'"
  obtains s1 where "iteration filename file_size (b (pos st)) st = Inr s1"
    and "loop_after n b filename file_size s1 = Some st'"
  using assms by (auto split: sum.splits)

lemma loop_after_fetch:
  "loop_after n b filename file_size st = Some st' \<Longrightarrow>
   fetch_loop b filename file_size st = fetch_loop b filename file_size st'"
proof (induction n arbitrary: st)
  case 0
  then show ?case by simp
next
  case (Suc n)
  from Suc.prems obtain s1 where it: "iteration filename file_size (b (pos st)) st = Inr s1"
    and rest: "loop_after n b filename file_size s1 = Some st'"
    by (rule loop_after_Suc_D)
  show ?case
    using it fetch_loop_step [of filename file_size b st s1] Suc.IH [OF rest] by simp
qed

lemma iteration_pos: "iteration filename file_size r st = Inr st' \<Longrightarrow> pos st' = Suc (pos st)"
  by (auto simp: iteration_def Let_def split: read_result.splits if_splits)

lemma loop_after_pos: "loop_after n b filename file_size st = Some st' \<Longrightarrow> pos st' = pos st + n"
proof (induction n arbitrary: st)
  case 0
  then show ?case by simp
next
  case (Suc n)
  from Suc.prems obtain s1 where it: "iteration filename file_size (b (pos st)) st = Inr s1"
    and rest: "loop_after n b filename file_size s1 = Some st'"
    by (rule loop_after_Suc_D)
  show ?case
    using iteration_pos [OF it] Suc.IH [OF rest] by simp
qed

text \<open>
  The loop returns exactly when some pass leaves it: the partial function agrees with
  the passes counted one by one.
\<close>

lemma fetch_loop_Some_D:
  assumes run: "fetch_loop b filename file_size st = Some out"
  shows "\<exists>n st'. loop_after n b filename file_size st = Some st'
          \<and> iteration filename file_size (b (pos st')) st' = Inl out"
proof (rule fetch_loop.raw_induct
    [where P = "\<lambda>b filename file_size st out.
        \<exists>n st'. loop_after n b filename file_size st = Some st'
          \<and> iteration filename file_size (b (pos st')) st' = Inl out", OF _ run])
  fix f :: "(nat \<Rightarrow> read_result) \<Rightarrow> path \<Rightarrow> int \<Rightarrow> 'a loop_state \<Rightarrow> ((error + unit) \<times> 'a world) option"
    and b filename file_size st out
  assume IH: "\<And>b filename file_size st out. f b filename file_size st = Some out \<Longrightarrow>
      \<exists>n st'. loop_after n b filename file_size st = Some st'
          \<and> iteration filename file_size (b (pos st')) st' = Inl out"
    and eq: "(case iteration filename file_size (b (pos st)) st of
               Inl out \<Rightarrow> Some out
             | Inr st' \<Rightarrow> f b filename file_size st') = Some out"
  show "\<exists>n st'. loop_after n b filename file_size st = Some st'
          \<and> iteration filename file_size (b (pos st')) st' = Inl out"
  proof (cases "iteration filename file_size (b (pos st)) st")
    case (Inl o1)
    with eq have "o1 = out" by simp
    with Inl have "loop_after 0 b filename file_size st = Some st
        \<and> iteration filename file_size (b (pos st)) st = Inl out" by simp
    then show ?thesis by blast
  next
    case (Inr s1)
    with eq have "f b filename file_size s1 = Some out" by simp
    from IH [OF this] obtain n st' where
      "loop_after n b filename file_size s1 = Some st'"
      "iteration filename file_size (b (pos st')) st' = Inl out" by blast
    with Inr have "loop_after (Suc n) b filename file_size st = Some st'
        \<and> iteration filename file_size (b (pos st')) st' = Inl out" by simp
    then show ?thesis by blast
  qed
qed

lemma fetch_loop_Some_iff:
  "fetch_loop b filename file_size st = Some out \<longleftrightarrow>
   (\<exists>n st'. loop_after n b filename file_size st = Some st'
          \<and> iteration filename file_size (b (pos st')) st' = Inl out)"
proof
  assume "fetch_loop b filename file_size st = Some out"
  then show "\<exists>n st'. loop_after n b filename file_size st = Some st'
          \<and> iteration filename file_size (b (pos st')) st' = Inl out"
    by (rule fetch_loop_Some_D)
next
  assume "\<exists>n st'. loop_after n b filename file_size st = Some st'
          \<and> iteration filename file_size (b (pos st')) st' = Inl out"
  then obtain n st' where la: "loop_after n b filename file_size st = Some st'"
    and ex: "iteration filename file_size (b (pos st')) st' = Inl out" by blast
  show "fetch_loop b filename file_size st = Some out"
    using loop_after_fetch [OF la] ex fetch_loop_exit [of filename file_size b st' out] by simp
qed

subsection \<open>The size header\<close>

text \<open>
  With a size header that is absent or not numeric, \<open>fetch_url\<close> ends with the exception
  that \<^verbatim>\<open>int\<close> raises, \<open>TypeError\<close> or \<open>ValueError\<close>, having opened the URL and done
  nothing else: no read, no file.
\<close>

lemma bad_size_header_raises:
  assumes "urlopen e url = Inr ureq"
  shows "(headers ureq ''Content-Length'' = None \<longrightarrow>
            fetch_url e url filename g w = Some (Inl TypeError, emit (UrlOpen url 1) w))
       \<and> (\<forall>s. headers ureq ''Content-Length'' = Some s \<and> int_of_str e s = None \<longrightarrow>
            fetch_url e url filename g w = Some (Inl ValueError, emit (UrlOpen url 1) w))"
  using assms by (simp add: fetch_url_def py_int_def Let_def)

text \<open>
  Claim C4 (a size header that is absent or non-numeric ends the transfer as the typed,
  reported failure TransferBadResponse, not as an unhandled crash), evaluated on the
  code: a response without the header, and one whose header reads \<^verbatim>\<open>12kB\<close>. What ends
  the transfer is the builtin exception of \<^verbatim>\<open>int\<close>; no handler of \<open>fetch_url\<close>,
  \<^verbatim>\<open>AssetGather.__init__\<close> or \<open>launch_gather\<close> catches it, nothing is printed or logged
  about it, and it leaves \<open>launch_gather\<close> as it was raised. Nothing in it tells a bad
  response: a \<^verbatim>\<open>urlopen\<close> that itself raises \<^verbatim>\<open>ValueError\<close> gives the caller the very same
  result. (No body bytes are read on the way, as the claim says.)
\<close>

theorem bad_size_header_crashes:
  "launch_gather (demo_env None [Data ''ab''] (\<lambda>n. True)) demo_manager [''pkg''] () ''token'' demo_world
     = Some (Inl TypeError,
         \<lparr>fs = [[''assets''] \<mapsto> Dir],
          trace = [PrintWouldGather [''pkg''] () ''token'', Print ''AssetGather()'',
                   UrlOpen gather_url 1]\<rparr>)
   \<and> launch_gather (demo_env (Some ''12kB'') [Data ''ab''] (\<lambda>n. True)) demo_manager [''pkg''] ()
        ''token'' demo_world
     = Some (Inl ValueError,
         \<lparr>fs = [[''assets''] \<mapsto> Dir],
          trace = [PrintWouldGather [''pkg''] () ''token'', Print ''AssetGather()'',
                   UrlOpen gather_url 1]\<rparr>)
   \<and> launch_gather refusing_env demo_manager [''pkg''] () ''token'' demo_world
     = launch_gather (demo_env (Some ''12kB'') [Data ''ab''] (\<lambda>n. True)) demo_manager [''pkg''] ()
        ''token'' demo_world"
  by (simp add: launch_gather_def AssetGather_init_def fetch_url_def demo_env_def refusing_env_def
        demo_world_def py_int_def dec_int_def digit_def emit_def)

subsection \<open>Timeouts\<close>

lemma running_after_fetch:
  assumes "running_after k e url filename w = Some st"
  obtains ureq file_size where "urlopen e url = Inr ureq"
    and "py_int e (headers ureq ''Content-Length'') = Inr file_size"
    and "fetch_url e url filename g w = fetch_loop (body ureq) filename file_size st"
    and "pos st = k"
    and "loop_after k (body ureq) filename file_size
           (loop_start ((emit (PrintDownloading filename file_size) (emit (UrlOpen url 1) w))
              \<lparr>fs := (fs w)(filename \<mapsto> File [])\<rparr>)) = Some st"
proof -
  from assms obtain ureq where u: "urlopen e url = Inr ureq"
    by (auto simp: running_after_def split: sum.splits)
  from assms u obtain file_size where h: "py_int e (headers ureq ''Content-Length'') = Inr file_size"
    by (auto simp: running_after_def split: sum.splits)
  from assms u h obtain f where o: "open_w (fs w) filename = Inr f"
    by (auto simp: running_after_def Let_def split: sum.splits)
  have f: "f = (fs w)(filename \<mapsto> File [])"
    using o by (rule open_w_fs)
  let ?w1 = "emit (PrintDownloading filename file_size) (emit (UrlOpen url 1) w)"
  have la: "loop_after k (body ureq) filename file_size (loop_start (?w1\<lparr>fs := f\<rparr>)) = Some st"
    using assms u h o by (simp add: running_after_def Let_def)
  have "fetch_url e url filename g w = fetch_loop (body ureq) filename file_size (loop_start (?w1\<lparr>fs := f\<rparr>))"
    using u h o by (simp add: fetch_url_def Let_def)
  then have run: "fetch_url e url filename g w = fetch_loop (body ureq) filename file_size st"
    using loop_after_fetch [OF la] by simp
  have "pos st = k"
    using loop_after_pos [OF la] by (simp add: loop_start_def)
  with u h run la f that show thesis by blast
qed

lemma timeout_exit:
  assumes "3 < time_outs st"
  shows "\<exists>w'. iteration filename file_size (Raises SocketTimeout) st = Inl (Inl SocketTimeout, w')
          \<and> fs w' filename = None"
  using assms by (simp add: iteration_def Let_def unlink_def)

lemma timeout_retry:
  assumes "\<not> 3 < time_outs st"
  shows "\<exists>st'. iteration filename file_size (Raises SocketTimeout) st = Inr st'
          \<and> time_outs st' = Suc (time_outs st) \<and> pos st' = Suc (pos st)"
  using assms by (simp add: iteration_def Let_def)

text \<open>
  The guard by itself: were the reads of a stream to time out again and again, the loop
  would end, with the file removed, as soon as a read times out with the counter past
  three, which is the fifth timeout of a transfer.
\<close>

lemma timeouts_abort_loop:
  assumes "\<forall>i<Suc n. b (pos st + i) = Raises SocketTimeout" and "3 < time_outs st + n"
  shows "\<exists>w'. fetch_loop b filename file_size st = Some (Inl SocketTimeout, w') \<and> fs w' filename = None"
  using assms
proof (induction n arbitrary: st)
  case 0
  then have r: "b (pos st) = Raises SocketTimeout" and t: "3 < time_outs st" by simp_all
  from timeout_exit [OF t, of filename file_size] obtain w' where
    "iteration filename file_size (Raises SocketTimeout) st = Inl (Inl SocketTimeout, w')"
    "fs w' filename = None" by blast
  with r fetch_loop_exit [of filename file_size b st "(Inl SocketTimeout, w')"] show ?case by simp
next
  case (Suc n)
  from Suc.prems(1) have r: "b (pos st) = Raises SocketTimeout" by (metis add.right_neutral zero_less_Suc)
  show ?case
  proof (cases "3 < time_outs st")
    case True
    from timeout_exit [OF True, of filename file_size] obtain w' where
      "iteration filename file_size (Raises SocketTimeout) st = Inl (Inl SocketTimeout, w')"
      "fs w' filename = None" by blast
    with r fetch_loop_exit [of filename file_size b st "(Inl SocketTimeout, w')"] show ?thesis by simp
  next
    case False
    from timeout_retry [OF False, of filename file_size] obtain st' where
      it: "iteration filename file_size (Raises SocketTimeout) st = Inr st'"
      and t: "time_outs st' = Suc (time_outs st)" and p: "pos st' = Suc (pos st)" by blast
    have reads: "\<forall>i<Suc n. b (pos st' + i) = Raises SocketTimeout"
    proof (intro allI impI)
      fix i assume "i < Suc n"
      then have "Suc i < Suc (Suc n)" by simp
      with Suc.prems(1) have "b (pos st + Suc i) = Raises SocketTimeout" by blast
      with p show "b (pos st' + i) = Raises SocketTimeout" by simp
    qed
    have "3 < time_outs st' + n" using Suc.prems(2) t by simp
    from Suc.IH [OF reads this] obtain w' where
      "fetch_loop b filename file_size st' = Some (Inl SocketTimeout, w')" "fs w' filename = None"
      by blast
    moreover have "fetch_loop b filename file_size st = fetch_loop b filename file_size st'"
      using it r fetch_loop_step [of filename file_size b st st'] by simp
    ultimately show ?thesis by simp
  qed
qed

text \<open>
  The counter is only ever incremented: a read that returns data leaves it as it is,
  and after any number of passes it has grown by the number of reads that timed out.
\<close>

lemma data_keeps_time_outs:
  "iteration filename file_size (Data d) st = Inr st' \<Longrightarrow> time_outs st' = time_outs st"
  by (auto simp: iteration_def Let_def split: if_splits)

lemma iteration_time_outs:
  "iteration filename file_size r st = Inr st' \<Longrightarrow>
   time_outs st' = time_outs st + (if r = Raises SocketTimeout then 1 else 0)"
  by (auto simp: iteration_def Let_def split: if_splits read_result.splits)

lemma filter_upt_shift:
  "length (filter P [0..<Suc n]) = (if P 0 then 1 else 0) + length (filter (\<lambda>i. P (Suc i)) [0..<n])"
proof -
  have "[0..<Suc n] = 0 # map Suc [0..<n]"
    by (simp add: upt_conv_Cons map_Suc_upt del: upt_Suc)
  then show ?thesis
    by (simp add: filter_map comp_def del: upt_Suc)
qed

lemma loop_after_time_outs:
  "loop_after n b filename file_size st = Some st' \<Longrightarrow>
   time_outs st' = time_outs st
     + length (filter (\<lambda>i. b (pos st + i) = Raises SocketTimeout) [0..<n])"
proof (induction n arbitrary: st)
  case 0
  then show ?case by simp
next
  case (Suc n)
  from Suc.prems obtain s1 where it: "iteration filename file_size (b (pos st)) st = Inr s1"
    and rest: "loop_after n b filename file_size s1 = Some st'"
    by (rule loop_after_Suc_D)
  have "time_outs st' = time_outs s1
     + length (filter (\<lambda>i. b (pos s1 + i) = Raises SocketTimeout) [0..<n])"
    using rest by (rule Suc.IH)
  moreover have "pos s1 = Suc (pos st)"
    using it by (rule iteration_pos)
  moreover have "time_outs s1 = time_outs st + (if b (pos st) = Raises SocketTimeout then 1 else 0)"
    using it by (rule iteration_time_outs)
  ultimately show ?case
    by (simp add: filter_upt_shift [where n = n] del: upt_Suc)
qed

subsection \<open>Timeouts of a socket\<close>


text \<open>At most one read of a socket's stream raises \<^verbatim>\<open>socket.timeout\<close>.\<close>

lemma socket_stream_count:
  assumes "socket_stream b"
  shows "length (filter (\<lambda>i. b i = Raises SocketTimeout) [0..<n]) \<le> 1"
proof -
  let ?A = "{i. b i = Raises SocketTimeout} \<inter> set [0..<n]"
  have "\<forall>x\<in>?A. \<forall>y\<in>?A. x = y"
  proof (intro ballI)
    fix x y assume x: "x \<in> ?A" and y: "y \<in> ?A"
    show "x = y"
    proof (rule ccontr)
      assume "x \<noteq> y"
      then consider "x < y" | "y < x" by arith
      then show False
        using assms x y by cases (auto simp: socket_stream_def)
    qed
  qed
  then have "card ?A \<le> Suc 0"
    by (simp add: card_le_Suc0_iff_eq)
  then show ?thesis
    by (simp add: distinct_length_filter)
qed










text \<open>
  On a socket's stream the branch that gives up, removes the file and re-raises
  \<^verbatim>\<open>socket.timeout\<close> is never reached: the counter does not get past one.
\<close>

lemma socket_stream_never_exhausted:
  assumes "urlopen e url = Inr ureq" and "socket_stream (body ureq)"
  shows "fetch_url e url filename g w \<noteq> Some (Inl SocketTimeout, w')"
proof
  assume run: "fetch_url e url filename g w = Some (Inl SocketTimeout, w')"
  obtain file_size where h: "py_int e (headers ureq ''Content-Length'') = Inr file_size"
    using run assms(1) by (cases "py_int e (headers ureq ''Content-Length'')")
      (auto simp: fetch_url_def Let_def py_int_def split: option.splits)
  obtain f where o: "open_w (fs w) filename = Inr f"
    using run assms(1) h by (cases "open_w (fs w) filename")
      (auto simp: fetch_url_def Let_def open_w_def split: if_splits)
  let ?S = "loop_start ((emit (PrintDownloading filename file_size) (emit (UrlOpen url 1) w))\<lparr>fs := f\<rparr>)"
  have "fetch_loop (body ureq) filename file_size ?S = Some (Inl SocketTimeout, w')"
    using run assms(1) h o by (simp add: fetch_url_def Let_def)
  then obtain n st where la: "loop_after n (body ureq) filename file_size ?S = Some st"
    and ex: "iteration filename file_size (body ureq (pos st)) st = Inl (Inl SocketTimeout, w')"
    using fetch_loop_Some_D by blast
  from ex have "3 < time_outs st"
    by (cases "body ureq (pos st)") (auto simp: iteration_def Let_def split: if_splits)
  moreover have "time_outs st = length (filter (\<lambda>i. body ureq i = Raises SocketTimeout) [0..<n])"
    using loop_after_time_outs [OF la] by (simp add: loop_start_def)
  ultimately show False
    using socket_stream_count [OF assms(2), of n] by simp
qed

text \<open>
  What a stall does instead: the first read that times out is waited out, the next read
  finds the timed out object and its \<^verbatim>\<open>OSError\<close>, which is no \<^verbatim>\<open>socket.timeout\<close>, ends
  the call; the output file stays as the blocks written so far have left it.
\<close>

lemma stall_ends_with_OSError:
  assumes "urlopen e url = Inr ureq" and "socket_stream (body ureq)"
    and "running_after k e url filename w = Some st"
    and "body ureq k = Raises SocketTimeout"
  shows "\<exists>w'. fetch_url e url filename g w = Some (Inl OSError, w') \<and> fs w' = fs (wld st)"
proof -
  from assms(3) obtain ureq' file_size where u: "urlopen e url = Inr ureq'"
    and run: "fetch_url e url filename g w = fetch_loop (body ureq') filename file_size st"
    and p: "pos st = k"
    and la: "loop_after k (body ureq') filename file_size
           (loop_start ((emit (PrintDownloading filename file_size) (emit (UrlOpen url 1) w))
              \<lparr>fs := (fs w)(filename \<mapsto> File [])\<rparr>)) = Some st"
    by (rule running_after_fetch)
  from u assms(1) have eq: "ureq' = ureq" by simp
  have "time_outs st = length (filter (\<lambda>i. body ureq i = Raises SocketTimeout) [0..<k])"
    using loop_after_time_outs [OF la] eq by (simp add: loop_start_def)
  with socket_stream_count [OF assms(2), of k] have "\<not> 3 < time_outs st" by simp
  from timeout_retry [OF this, of filename file_size] obtain st1 where
    it: "iteration filename file_size (Raises SocketTimeout) st = Inr st1"
    and p1: "pos st1 = Suc (pos st)" by blast
  have fs1: "fs (wld st1) = fs (wld st)"
    using it \<open>\<not> 3 < time_outs st\<close> by (auto simp: iteration_def Let_def)
  have "body ureq (Suc k) = Raises OSError"
    using assms(2,4) unfolding socket_stream_def by (meson lessI)
  with p p1 have "iteration filename file_size (body ureq (pos st1)) st1
      = Inl (Inl OSError, emit (ReadCall block_sz) (wld st1))"
    by (simp add: iteration_def Let_def)
  then have "fetch_loop (body ureq) filename file_size st1
      = Some (Inl OSError, emit (ReadCall block_sz) (wld st1))"
    by (rule fetch_loop_exit)
  moreover have "fetch_loop (body ureq) filename file_size st
      = fetch_loop (body ureq) filename file_size st1"
    using it assms(4) p fetch_loop_step [of filename file_size "body ureq" st st1] by simp
  ultimately show ?thesis
    using run eq fs1 by simp
qed

text \<open>
  Claim C2 (a download in which more than 3 consecutive read timeouts occur, such as a
  stream whose reads always time out, ends as TransferTimeoutExhausted with the partial
  output file removed), evaluated on the code: a response that declares 4 bytes and
  then stalls. The first read times out and is waited out; the second read raises
  \<^verbatim>\<open>OSError\<close>, which the handler for \<^verbatim>\<open>socket.timeout\<close> does not catch; the call ends with
  it, and the output file, empty, is still on disk.
\<close>

theorem stalled_download_leaves_file:
  "fetch_url (stall_env (Some ''4'') []) gather_url [''assets'', ''testdl''] demo_gather demo_world
   = Some (Inl OSError,
       \<lparr>fs = [[''assets''] \<mapsto> Dir, [''assets'', ''testdl''] \<mapsto> File []],
        trace =
          [UrlOpen gather_url 1, PrintDownloading [''assets'', ''testdl''] 4,
           ReadCall 204800, Print ''Hmmm... little issue... I'll wait a couple of seconds'', Sleep 3,
           ReadCall 204800]\<rparr>)"
  by (simp add: fetch_url_def stall_env_def demo_world_def py_int_def dec_int_def digit_def
        emit_def open_w_def is_dir_def stalling_body_def loop_start_def fetch_loop.simps
        iteration_def block_sz_def)

subsection \<open>Runs that differ in the console history\<close>

lemma iteration_alike:
  assumes "alike st st'"
  shows "rel_sum alike_out alike (iteration filename file_size r st) (iteration filename file_size r st')"
  using assms
  by (auto simp: iteration_def alike_def alike_out_def Let_def split: read_result.splits)

lemma loop_after_alike:
  assumes "alike st st'" and "loop_after n b filename file_size st = Some s1"
  shows "\<exists>s1'. loop_after n b filename file_size st' = Some s1' \<and> alike s1 s1'"
  using assms
proof (induction n arbitrary: st st')
  case 0
  then show ?case by simp
next
  case (Suc n)
  from Suc.prems(2) obtain s2 where it: "iteration filename file_size (b (pos st)) st = Inr s2"
    and rest: "loop_after n b filename file_size s2 = Some s1"
    by (rule loop_after_Suc_D)
  have p: "pos st' = pos st" using Suc.prems(1) by (simp add: alike_def)
  from iteration_alike [OF Suc.prems(1), of filename file_size "b (pos st)"] it
  obtain s2' where it': "iteration filename file_size (b (pos st)) st' = Inr s2'" and a: "alike s2 s2'"
    by (cases "iteration filename file_size (b (pos st)) st'") auto
  from Suc.IH [OF a rest] obtain s1' where "loop_after n b filename file_size s2' = Some s1'" "alike s1 s1'"
    by blast
  with it' p show ?case by simp
qed

lemma fetch_loop_alike_Some:
  assumes "alike st st'" and "fetch_loop b filename file_size st = Some out"
  shows "\<exists>out'. fetch_loop b filename file_size st' = Some out' \<and> alike_out out out'"
proof -
  from assms(2) obtain n s1 where la: "loop_after n b filename file_size st = Some s1"
    and ex: "iteration filename file_size (b (pos s1)) s1 = Inl out"
    using fetch_loop_Some_D by blast
  from loop_after_alike [OF assms(1) la] obtain s1' where
    la': "loop_after n b filename file_size st' = Some s1'" and a: "alike s1 s1'" by blast
  have p: "pos s1' = pos s1" using a by (simp add: alike_def)
  from iteration_alike [OF a, of filename file_size "b (pos s1)"] ex
  obtain out' where ex': "iteration filename file_size (b (pos s1)) s1' = Inl out'" and "alike_out out out'"
    by (cases "iteration filename file_size (b (pos s1)) s1'") auto
  moreover have "fetch_loop b filename file_size st' = Some out'"
  proof -
    from ex' p have "iteration filename file_size (b (pos s1')) s1' = Inl out'" by simp
    then have "fetch_loop b filename file_size s1' = Some out'" by (rule fetch_loop_exit)
    with loop_after_fetch [OF la'] show ?thesis by simp
  qed
  ultimately show ?thesis by blast
qed

lemma alike_sym: "alike st st' \<Longrightarrow> alike st' st"
  by (simp add: alike_def)

lemma outcome_Some: "outcome (Some (r, w)) = Some (r, fs w)"
  by (simp add: outcome_def)

lemma outcome_None [simp]: "outcome None = None"
  by (simp add: outcome_def)

lemma fetch_loop_alike:
  assumes "alike st st'"
  shows "outcome (fetch_loop b filename file_size st) = outcome (fetch_loop b filename file_size st')"
proof (cases "fetch_loop b filename file_size st")
  case None
  have "fetch_loop b filename file_size st' = None"
  proof (rule ccontr)
    assume "fetch_loop b filename file_size st' \<noteq> None"
    then obtain out' where "fetch_loop b filename file_size st' = Some out'" by blast
    from fetch_loop_alike_Some [OF alike_sym [OF assms] this] None show False by simp
  qed
  with None show ?thesis by simp
next
  case (Some out)
  from fetch_loop_alike_Some [OF assms Some] obtain out' where
    "fetch_loop b filename file_size st' = Some out'" "alike_out out out'" by blast
  with Some show ?thesis
    by (cases out; cases out') (simp add: outcome_def alike_out_def)
qed

lemma fetch_url_outcome:
  assumes "fs w = fs w'"
  shows "outcome (fetch_url e url filename g w) = outcome (fetch_url e url filename g' w')"
proof (cases "urlopen e url")
  case (Inl x)
  then show ?thesis using assms by (simp add: fetch_url_def outcome_def Let_def)
next
  case (Inr ureq)
  note u = this
  show ?thesis
  proof (cases "py_int e (headers ureq ''Content-Length'')")
    case (Inl x)
    then show ?thesis using assms u by (simp add: fetch_url_def outcome_def Let_def)
  next
    case (Inr file_size)
    note h = this
    show ?thesis
    proof (cases "open_w (fs w) filename")
      case (Inl x)
      then show ?thesis using assms u h by (simp add: fetch_url_def outcome_def Let_def)
    next
      case (Inr f)
      have "alike (loop_start ((emit (PrintDownloading filename file_size) (emit (UrlOpen url 1) w))\<lparr>fs := f\<rparr>))
                  (loop_start ((emit (PrintDownloading filename file_size) (emit (UrlOpen url 1) w'))\<lparr>fs := f\<rparr>))"
        by (simp add: alike_def loop_start_def)
      from fetch_loop_alike [OF this] show ?thesis
        using assms u h Inr by (simp add: fetch_url_def Let_def)
    qed
  qed
qed

subsection \<open>What a download touches\<close>

lemma iteration_frame:
  assumes "q \<noteq> filename"
  shows "case iteration filename file_size r st of
           Inl (x, w') \<Rightarrow> fs w' q = fs (wld st) q \<and> (\<exists>rest. trace w' = trace (wld st) @ rest)
         | Inr st' \<Rightarrow> fs (wld st') q = fs (wld st) q \<and> (\<exists>rest. trace (wld st') = trace (wld st) @ rest)"
  using assms
  by (auto simp: iteration_def Let_def write_file_def unlink_def
           split: read_result.splits option.splits node.splits)

lemma loop_after_frame:
  assumes "q \<noteq> filename" and "loop_after n b filename file_size st = Some st'"
  shows "fs (wld st') q = fs (wld st) q \<and> (\<exists>rest. trace (wld st') = trace (wld st) @ rest)"
  using assms(2)
proof (induction n arbitrary: st)
  case 0
  then show ?case by simp
next
  case (Suc n)
  from Suc.prems obtain s1 where it: "iteration filename file_size (b (pos st)) st = Inr s1"
    and rest: "loop_after n b filename file_size s1 = Some st'"
    by (rule loop_after_Suc_D)
  from iteration_frame [OF assms(1), where file_size = file_size and r = "b (pos st)" and st = st] it
  have "fs (wld s1) q = fs (wld st) q \<and> (\<exists>rest. trace (wld s1) = trace (wld st) @ rest)" by simp
  with Suc.IH [OF rest] show ?case by auto
qed

lemma fetch_loop_frame:
  assumes "q \<noteq> filename" and "fetch_loop b filename file_size st = Some (x, w')"
  shows "fs w' q = fs (wld st) q \<and> (\<exists>rest. trace w' = trace (wld st) @ rest)"
proof -
  from assms(2) obtain n s1 where la: "loop_after n b filename file_size st = Some s1"
    and ex: "iteration filename file_size (b (pos s1)) s1 = Inl (x, w')"
    using fetch_loop_Some_D by blast
  from iteration_frame [OF assms(1), where file_size = file_size and r = "b (pos s1)" and st = s1] ex
  have "fs w' q = fs (wld s1) q \<and> (\<exists>rest. trace w' = trace (wld s1) @ rest)" by simp
  with loop_after_frame [OF assms(1) la] show ?thesis by auto
qed

lemma fetch_url_frame:
  assumes "q \<noteq> filename" and "fetch_url e url filename g w = Some (x, w')"
  shows "fs w' q = fs w q \<and> (\<exists>rest. trace w' = trace w @ rest)"
proof (cases "urlopen e url")
  case (Inl y)
  then show ?thesis using assms(2) by (auto simp: fetch_url_def Let_def)
next
  case (Inr ureq)
  note u = this
  show ?thesis
  proof (cases "py_int e (headers ureq ''Content-Length'')")
    case (Inl y)
    then show ?thesis using assms(2) u by (auto simp: fetch_url_def Let_def)
  next
    case (Inr file_size)
    note h = this
    show ?thesis
    proof (cases "open_w (fs w) filename")
      case (Inl y)
      then show ?thesis using assms(2) u h by (auto simp: fetch_url_def Let_def)
    next
      case (Inr f)
      let ?w1 = "emit (PrintDownloading filename file_size) (emit (UrlOpen url 1) w)"
      have f: "f = (fs w)(filename \<mapsto> File [])" using Inr by (rule open_w_fs)
      have "fetch_loop (body ureq) filename file_size (loop_start (?w1\<lparr>fs := f\<rparr>)) = Some (x, w')"
        using assms(2) u h Inr by (simp add: fetch_url_def Let_def)
      from fetch_loop_frame [OF assms(1) this] show ?thesis
        using f assms(1) by (auto simp: loop_start_def)
    qed
  qed
qed

lemma fetch_url_env:
  assumes "urlopen e url = urlopen e' url" and "int_of_str e = int_of_str e'"
  shows "fetch_url e url filename g w = fetch_url e' url filename g w"
proof -
  have pi: "py_int e = py_int e'"
    using assms(2) by (auto simp: py_int_def fun_eq_iff split: option.splits)
  show ?thesis
    unfolding fetch_url_def assms(1) pi by (rule refl)
qed

subsection \<open>Cancellation\<close>

text \<open>
  The result of \<open>fetch_url\<close> does not depend on whether the gather is still referenced:
  the weak reference is never called.
\<close>

lemma fetch_url_ignores_gather_alive:
  "fetch_url (e\<lparr>gather_alive := a\<rparr>) url filename g w = fetch_url e url filename g w"
  by (rule fetch_url_env) simp_all

text \<open>
  Claim C1 (between consecutive chunk reads the routine checks whether the owning
  AssetGather is still reachable, and stops reading and reports the cancellation when it
  is not), evaluated on the code: a stream of two blocks whose gather is no longer
  referenced once the first read has been issued. The routine issues the second and the
  third read all the same, writes both blocks and returns normally. The comment in
  \<^verbatim>\<open>fetch_url\<close>, "we want to abort if it dies", states the intent the code misses.
\<close>

theorem download_goes_on_without_gather:
  "gather_alive (demo_env (Some ''4'') [Data ''ab'', Data ''cd''] (\<lambda>n. n < 1)) 1 = False
   \<and> fetch_url (demo_env (Some ''4'') [Data ''ab'', Data ''cd''] (\<lambda>n. n < 1)) gather_url
        [''assets'', ''testdl''] demo_gather demo_world
     = Some (Inr (),
         \<lparr>fs = [[''assets''] \<mapsto> Dir, [''assets'', ''testdl''] \<mapsto> File ''abcd''],
          trace =
            [UrlOpen gather_url 1, PrintDownloading [''assets'', ''testdl''] 4,
             ReadCall 204800, PrintStatus 2 (1 / 2),
             ReadCall 204800, PrintStatus 4 1,
             ReadCall 204800, Print ''Done!'']\<rparr>)"
  by (simp add: fetch_url_def demo_env_def demo_world_def py_int_def dec_int_def digit_def
        emit_def open_w_def is_dir_def script_body_def loop_start_def fetch_loop.simps
        iteration_def write_file_def float_limit_def block_sz_def)

subsection \<open>Progress\<close>

text \<open>
  Where the declared size is not zero and, like the bytes received, within the range of
  a float, a stream that delivers the non-empty blocks \<open>cs\<close> and then ends makes the
  routine return normally, with exactly the concatenation of the blocks in the output
  file and one status line per block. The byte counts of the status lines are the
  running sums of the block lengths, so they increase strictly; the last line reports
  the whole, that is 100 percent when the declared size is the number of bytes received.
\<close>

lemma data_pass:
  assumes "d \<noteq> []" and "file_size \<noteq> 0" and "\<bar>file_size\<bar> < float_limit"
    and "file_size_dl st + int (length d) < float_limit"
    and "fs (wld st) filename = Some (File c0)"
  shows "iteration filename file_size (Data d) st =
     Inr \<lparr>file_size_dl = file_size_dl st + int (length d), time_outs = time_outs st,
          pos = Suc (pos st),
          wld = \<lparr>fs = (fs (wld st))(filename \<mapsto> File (c0 @ d)),
                 trace = trace (wld st) @ progress file_size (file_size_dl st) [d]\<rparr>\<rparr>"
  using assms by (simp add: iteration_def Let_def write_file_def emit_def)

lemma loop_clean:
  assumes "\<forall>i<length cs. b (pos st + i) = Data (cs ! i) \<and> cs ! i \<noteq> []"
    and "b (pos st + length cs) = Data []"
    and "file_size \<noteq> 0" and "\<bar>file_size\<bar> < float_limit"
    and "file_size_dl st + int (length (concat cs)) < float_limit"
    and "fs (wld st) filename = Some (File c0)"
  shows "fetch_loop b filename file_size st =
     Some (Inr (),
       \<lparr>fs = (fs (wld st))(filename \<mapsto> File (c0 @ concat cs)),
        trace = trace (wld st) @ progress file_size (file_size_dl st) cs
                  @ [ReadCall block_sz, Print ''Done!'']\<rparr>)"
  using assms(1,2,5,6)
proof (induction cs arbitrary: st c0)
  case Nil
  then have "b (pos st) = Data []" by simp
  then have "iteration filename file_size (b (pos st)) st
      = Inl (Inr (), \<lparr>fs = fs (wld st), trace = trace (wld st) @ [ReadCall block_sz, Print ''Done!'']\<rparr>)"
    by (simp add: iteration_def Let_def emit_def)
  then have "fetch_loop b filename file_size st
      = Some (Inr (), \<lparr>fs = fs (wld st), trace = trace (wld st) @ [ReadCall block_sz, Print ''Done!'']\<rparr>)"
    using fetch_loop_exit [of filename file_size b st] by simp
  with Nil.prems(4) show ?case
    by (simp add: fun_upd_idem)
next
  case (Cons c cs)
  from Cons.prems(1) have r: "b (pos st) = Data c" and ne: "c \<noteq> []"
    by force+
  have lim: "file_size_dl st + int (length c) < float_limit"
    using Cons.prems(3) by simp
  let ?st' = "\<lparr>file_size_dl = file_size_dl st + int (length c), time_outs = time_outs st,
          pos = Suc (pos st),
          wld = \<lparr>fs = (fs (wld st))(filename \<mapsto> File (c0 @ c)),
                 trace = trace (wld st) @ progress file_size (file_size_dl st) [c]\<rparr>\<rparr>"
  have it: "iteration filename file_size (b (pos st)) st = Inr ?st'"
    using data_pass [OF ne assms(3,4) lim Cons.prems(4)] r by simp
  have reads: "\<forall>i<length cs. b (pos ?st' + i) = Data (cs ! i) \<and> cs ! i \<noteq> []"
  proof (intro allI impI)
    fix i assume "i < length cs"
    then have "Suc i < length (c # cs)" by simp
    with Cons.prems(1) have "b (pos st + Suc i) = Data ((c # cs) ! Suc i) \<and> (c # cs) ! Suc i \<noteq> []"
      by blast
    then show "b (pos ?st' + i) = Data (cs ! i) \<and> cs ! i \<noteq> []" by simp
  qed
  have eos: "b (pos ?st' + length cs) = Data []"
    using Cons.prems(2) by simp
  have lim': "file_size_dl ?st' + int (length (concat cs)) < float_limit"
    using Cons.prems(3) by simp
  have fl: "fs (wld ?st') filename = Some (File (c0 @ c))" by simp
  have "fetch_loop b filename file_size st = fetch_loop b filename file_size ?st'"
    using it fetch_loop_step [of filename file_size b st ?st'] by simp
  also have "\<dots> = Some (Inr (),
       \<lparr>fs = (fs (wld ?st'))(filename \<mapsto> File ((c0 @ c) @ concat cs)),
        trace = trace (wld ?st') @ progress file_size (file_size_dl ?st') cs
                  @ [ReadCall block_sz, Print ''Done!'']\<rparr>)"
    using reads eos lim' fl by (rule Cons.IH)
  finally show ?case by (simp add: fun_eq_iff)
qed

lemma clean_stream_completes:
  assumes "urlopen e url = Inr ureq"
    and "py_int e (headers ureq ''Content-Length'') = Inr file_size"
    and "open_w (fs w) filename = Inr f"
    and "\<forall>i<length cs. body ureq i = Data (cs ! i) \<and> cs ! i \<noteq> []"
    and "body ureq (length cs) = Data []"
    and "file_size \<noteq> 0" and "\<bar>file_size\<bar> < float_limit"
    and "int (length (concat cs)) < float_limit"
  shows "fetch_url e url filename g w =
     Some (Inr (),
       \<lparr>fs = (fs w)(filename \<mapsto> File (concat cs)),
        trace = trace w @ [UrlOpen url 1, PrintDownloading filename file_size]
                  @ progress file_size 0 cs @ [ReadCall block_sz, Print ''Done!'']\<rparr>)"
proof -
  let ?w1 = "emit (PrintDownloading filename file_size) (emit (UrlOpen url 1) w)"
  let ?st = "loop_start (?w1\<lparr>fs := f\<rparr>)"
  have f: "f = (fs w)(filename \<mapsto> File [])"
    using assms(3) by (rule open_w_fs)
  have "fetch_url e url filename g w = fetch_loop (body ureq) filename file_size ?st"
    using assms(1-3) by (simp add: fetch_url_def Let_def)
  also have "\<dots> = Some (Inr (),
       \<lparr>fs = (fs (wld ?st))(filename \<mapsto> File ([] @ concat cs)),
        trace = trace (wld ?st) @ progress file_size (file_size_dl ?st) cs
                  @ [ReadCall block_sz, Print ''Done!'']\<rparr>)"
    using assms(4,5,6,7,8) f
    by (intro loop_clean) (simp_all add: loop_start_def)
  finally show ?thesis
    using f by (simp add: loop_start_def)
qed

lemma status_counts_progress:
  "status_counts (progress file_size n cs :: 'f event list)
     = map (\<lambda>k. n + int (length (concat (take (Suc k) cs)))) [0..<length cs]"
proof (induction cs arbitrary: n)
  case Nil
  then show ?case by simp
next
  case (Cons c cs)
  have "[0..<length (c # cs)] = 0 # map Suc [0..<length cs]"
    by (simp add: upt_conv_Cons map_Suc_upt del: upt_Suc)
  then show ?case
    using Cons.IH [of "n + int (length c)"]
    by (simp add: comp_def add.assoc del: upt_Suc)
qed

lemma status_counts_increase:
  assumes "\<forall>c\<in>set cs. c \<noteq> []"
  shows "sorted_wrt (<) (n # status_counts (progress file_size n cs :: 'f event list))"
  using assms
proof (induction cs arbitrary: n)
  case Nil
  then show ?case by simp
next
  case (Cons c cs)
  then have "c \<noteq> []" and rest: "\<forall>c\<in>set cs. c \<noteq> []" by simp_all
  from Cons.IH [OF rest, of "n + int (length c)"]
  have s: "sorted_wrt (<) ((n + int (length c)) # status_counts (progress file_size (n + int (length c)) cs :: 'f event list))" .
  have "n < n + int (length c)" using \<open>c \<noteq> []\<close> by simp
  with s show ?case by (auto simp: less_trans)
qed

lemma last_progress:
  "cs \<noteq> [] \<Longrightarrow>
   last (progress file_size n cs :: 'f event list)
     = PrintStatus (n + int (length (concat cs)))
         (of_int (n + int (length (concat cs))) / of_int file_size)"
proof (induction cs arbitrary: n)
  case Nil
  then show ?case by simp
next
  case (Cons c cs)
  show ?case
  proof (cases "cs = []")
    case True
    then show ?thesis by simp
  next
    case False
    have "progress file_size (n + int (length c)) cs \<noteq> ([] :: 'f event list)"
      using False by (cases cs) simp_all
    with Cons.IH [OF False, of "n + int (length c)"] show ?thesis
      by (simp add: add.assoc)
  qed
qed

lemma last_progress_full:
  "cs \<noteq> [] \<Longrightarrow> file_size \<noteq> 0 \<Longrightarrow> file_size = int (length (concat cs)) \<Longrightarrow>
   last (progress file_size 0 cs :: 'f event list) = PrintStatus file_size 1"
  by (simp add: last_progress)

text \<open>
  Claim C9 (a download whose stream delivers N blocks and then ends completes, with the
  blocks concatenated in the output file), evaluated on the code: a response that
  declares the size 0 and delivers one block, then ends. The progress line divides by
  the declared size, so the call ends with \<^verbatim>\<open>ZeroDivisionError\<close> after the first block
  has been written; the end of the stream is never read.
\<close>

theorem zero_size_header_crashes:
  "fetch_url (demo_env (Some ''0'') [Data ''ab''] (\<lambda>n. True)) gather_url
        [''assets'', ''testdl''] demo_gather demo_world
     = Some (Inl ZeroDivisionError,
         \<lparr>fs = [[''assets''] \<mapsto> Dir, [''assets'', ''testdl''] \<mapsto> File ''ab''],
          trace =
            [UrlOpen gather_url 1, PrintDownloading [''assets'', ''testdl''] 0,
             ReadCall 204800]\<rparr>)"
  by (simp add: fetch_url_def demo_env_def demo_world_def py_int_def dec_int_def digit_def
        emit_def open_w_def is_dir_def script_body_def loop_start_def fetch_loop.simps
        iteration_def write_file_def float_limit_def block_sz_def)

subsection \<open>launch_gather\<close>

text \<open>
  Claim C10. For every call of \<open>launch_gather\<close>, whatever the packages, the flavor and
  the account token are: \<open>valid\<close> of a gather is \<open>True\<close>; the result and the file system
  are those of downloading the one fixed URL into \<^verbatim>\<open><rootdir>/testdl\<close> (a download that
  raises or never ends does the same to the call); they are the same for any other
  arguments; no other URL matters to the call; and when the call returns, the
  arguments have been printed and no path but \<^verbatim>\<open><rootdir>/testdl\<close> has changed.
\<close>

theorem launch_gather_fixed_download:
  "valid g
   \<and> outcome (launch_gather e m packages flavor account_token w)
       = map_option (\<lambda>(r, f). (map_sum id (\<lambda>u. \<lparr>g_manager = m, g_valid = True\<rparr>) r, f))
           (outcome (fetch_url e gather_url (rootdir m @ [''testdl'']) g w))
   \<and> outcome (launch_gather e m packages flavor account_token w)
       = outcome (launch_gather e m packages' flavor' account_token' w)
   \<and> (urlopen e gather_url = urlopen e' gather_url \<and> int_of_str e = int_of_str e' \<longrightarrow>
        launch_gather e m packages flavor account_token w
          = launch_gather e' m packages flavor account_token w)
   \<and> (\<forall>r w'. launch_gather e m packages flavor account_token w = Some (r, w') \<longrightarrow>
        (\<exists>rest. trace w' = trace w @ PrintWouldGather packages flavor account_token # rest)
        \<and> (\<forall>q. q \<noteq> rootdir m @ [''testdl''] \<longrightarrow> fs w' q = fs w q))"
proof -
  let ?p = "rootdir m @ [''testdl'']"
  let ?self = "\<lparr>g_manager = m, g_valid = True\<rparr>"
  let ?w1 = "\<lambda>p f t. emit (Print ''AssetGather()'') (emit (PrintWouldGather p f t) w)"
  have init: "outcome (launch_gather e m p f t w)
       = map_option (\<lambda>(r, f). (map_sum id (\<lambda>u. ?self) r, f))
           (outcome (fetch_url e gather_url ?p ?self (?w1 p f t)))" for p f t
    by (cases "fetch_url e gather_url ?p ?self (?w1 p f t)")
       (auto simp: launch_gather_def AssetGather_init_def outcome_def Let_def split: sum.splits)
  have same: "outcome (fetch_url e gather_url ?p ?self (?w1 p f t))
       = outcome (fetch_url e gather_url ?p g w)" for p f t
    by (rule fetch_url_outcome) simp
  have c2: "outcome (launch_gather e m p f t w)
       = map_option (\<lambda>(r, f). (map_sum id (\<lambda>u. ?self) r, f))
           (outcome (fetch_url e gather_url ?p g w))" for p f t
    using init [of p f t] same [of p f t] by simp
  have c4: "launch_gather e m packages flavor account_token w
          = launch_gather e' m packages flavor account_token w"
    if "urlopen e gather_url = urlopen e' gather_url" "int_of_str e = int_of_str e'"
    by (simp add: launch_gather_def AssetGather_init_def Let_def fetch_url_env [OF that])
  have c5: "(\<exists>rest. trace w' = trace w @ PrintWouldGather packages flavor account_token # rest)
        \<and> (\<forall>q. q \<noteq> ?p \<longrightarrow> fs w' q = fs w q)"
    if run: "launch_gather e m packages flavor account_token w = Some (r, w')" for r w'
  proof -
    from run obtain x w2 where
      fu: "fetch_url e gather_url ?p ?self (?w1 packages flavor account_token) = Some (x, w2)"
      and w': "w' = w2 \<or> w' = emit (Print ''fetch success'') w2"
      by (auto simp: launch_gather_def AssetGather_init_def Let_def split: option.splits sum.splits)
    have fr: "fs w2 q = fs w q" if "q \<noteq> ?p" for q
      using fetch_url_frame [OF that fu] by simp
    obtain q0 :: path where "q0 \<noteq> ?p" by (metis append_Nil2 not_Cons_self2 self_append_conv)
    from fetch_url_frame [OF this fu] obtain rest where
      "trace w2 = trace w @ PrintWouldGather packages flavor account_token # Print ''AssetGather()'' # rest"
      by auto
    with fr w' show ?thesis by auto
  qed
  show ?thesis
    using c2 [of packages flavor account_token] c2 [of packages' flavor' account_token'] c4 c5
    by (simp add: valid_def)
qed

theorem launch_gather_fixed_download_witness:
  "valid demo_gather
   \<and> launch_gather (demo_env (Some ''4'') [Data ''ab'', Data ''cd''] (\<lambda>n. True)) demo_manager
        [''pkg''] () ''token'' demo_world
     = Some (Inr \<lparr>g_manager = demo_manager, g_valid = True\<rparr>,
         \<lparr>fs = [[''assets''] \<mapsto> Dir, [''assets'', ''testdl''] \<mapsto> File ''abcd''],
          trace =
            [PrintWouldGather [''pkg''] () ''token'', Print ''AssetGather()'',
             UrlOpen gather_url 1, PrintDownloading [''assets'', ''testdl''] 4,
             ReadCall 204800, PrintStatus 2 (1 / 2),
             ReadCall 204800, PrintStatus 4 1,
             ReadCall 204800, Print ''Done!'', Print ''fetch success'']\<rparr>)
   \<and> outcome (launch_gather (demo_env (Some ''4'') [Data ''ab'', Data ''cd''] (\<lambda>n. True)) demo_manager
        [''other'', ''packages''] () ''another token'' demo_world)
     = Some (Inr \<lparr>g_manager = demo_manager, g_valid = True\<rparr>,
             [[''assets''] \<mapsto> Dir, [''assets'', ''testdl''] \<mapsto> File ''abcd''])
   \<and> launch_gather
        ((demo_env (Some ''4'') [Data ''ab'', Data ''cd''] (\<lambda>n. True))
           \<lparr>urlopen := (\<lambda>u. if u = gather_url
                then urlopen (demo_env (Some ''4'') [Data ''ab'', Data ''cd''] (\<lambda>n. True)) u
                else Inr \<lparr>headers = Map.empty, body = (\<lambda>i. Data ''zz'')\<rparr>)\<rparr>)
        demo_manager [''pkg''] () ''token'' demo_world
     = launch_gather (demo_env (Some ''4'') [Data ''ab'', Data ''cd''] (\<lambda>n. True)) demo_manager
        [''pkg''] () ''token'' demo_world
   \<and> fs demo_world [''assets''] = Some Dir"
proof -
  let ?e = "demo_env (Some ''4'') [Data ''ab'', Data ''cd''] (\<lambda>n. True)"
  let ?e' = "?e\<lparr>urlopen := (\<lambda>u. if u = gather_url then urlopen ?e u
                else Inr \<lparr>headers = Map.empty, body = (\<lambda>i. Data ''zz'')\<rparr>)\<rparr>"
  let ?w' = "\<lparr>fs = [[''assets''] \<mapsto> Dir, [''assets'', ''testdl''] \<mapsto> File ''abcd''],
          trace =
            [PrintWouldGather [''pkg''] () ''token'', Print ''AssetGather()'',
             UrlOpen gather_url 1, PrintDownloading [''assets'', ''testdl''] 4,
             ReadCall 204800, PrintStatus 2 (1 / 2),
             ReadCall 204800, PrintStatus 4 1,
             ReadCall 204800, Print ''Done!'', Print ''fetch success'']\<rparr>"
  note T = launch_gather_fixed_download
    [of demo_gather ?e demo_manager "[''pkg'']" "()" "''token''" demo_world
        "[''other'', ''packages'']" "()" "''another token''" ?e']
  have run: "launch_gather ?e demo_manager [''pkg''] () ''token'' demo_world
     = Some (Inr \<lparr>g_manager = demo_manager, g_valid = True\<rparr>, ?w')"
    by (simp add: launch_gather_def AssetGather_init_def rootdir_def demo_manager_def
        fetch_url_def demo_env_def demo_world_def py_int_def dec_int_def digit_def
        emit_def open_w_def is_dir_def script_body_def loop_start_def fetch_loop.simps
        iteration_def write_file_def float_limit_def block_sz_def)
  have agree: "urlopen ?e gather_url = urlopen ?e' gather_url \<and> int_of_str ?e = int_of_str ?e'"
    by simp
  have other: "[''assets''] \<noteq> rootdir demo_manager @ [''testdl'']"
    by (simp add: rootdir_def demo_manager_def)
  have o1: "outcome (launch_gather ?e demo_manager [''pkg''] () ''token'' demo_world)
     = Some (Inr \<lparr>g_manager = demo_manager, g_valid = True\<rparr>,
             [[''assets''] \<mapsto> Dir, [''assets'', ''testdl''] \<mapsto> File ''abcd''])"
    using run by (simp add: outcome_def)
  from T have "outcome (launch_gather ?e demo_manager [''pkg''] () ''token'' demo_world)
     = outcome (launch_gather ?e demo_manager [''other'', ''packages''] () ''another token'' demo_world)"
    by blast
  with o1 have "outcome (launch_gather ?e demo_manager [''other'', ''packages''] () ''another token'' demo_world)
     = Some (Inr \<lparr>g_manager = demo_manager, g_valid = True\<rparr>,
             [[''assets''] \<mapsto> Dir, [''assets'', ''testdl''] \<mapsto> File ''abcd''])"
    by simp
  moreover from T agree have "launch_gather ?e demo_manager [''pkg''] () ''token'' demo_world
     = launch_gather ?e' demo_manager [''pkg''] () ''token'' demo_world"
    by blast
  then have "launch_gather ?e' demo_manager [''pkg''] () ''token'' demo_world
     = launch_gather ?e demo_manager [''pkg''] () ''token'' demo_world"
    by (rule sym)
  moreover from T run other have "fs ?w' [''assets''] = fs demo_world [''assets'']"
    by blast
  then have "fs demo_world [''assets''] = Some Dir" by simp
  moreover from T have "valid demo_gather" by blast
  ultimately show ?thesis using run by simp
qed

end
